theory Spec2Isabelle
  imports Complex_Main "HOL-Library.Sublist" "HOL-Library.Word"
begin

section \<open>JavaScript values used by the extension\<close>

text \<open>
  Strings are lists of code units; the model covers code units below 256, which
  includes every ASCII string.  \<open>String.prototype.trim\<close> removes the WhiteSpace and
  LineTerminator code points; in this range they are TAB, LF, VT, FF, CR, SPACE and
  NBSP.
\<close>

definition is_whitespace :: "char \<Rightarrow> bool" where
  "is_whitespace c \<longleftrightarrow>
     c \<in> set [CHR 0x09, CHR 0x0A, CHR 0x0B, CHR 0x0C, CHR 0x0D, CHR 0x20, CHR 0xA0]"

definition trim_end :: "string \<Rightarrow> string" where
  "trim_end s = rev (dropWhile is_whitespace (rev s))"

definition js_trim :: "string \<Rightarrow> string" where
  "js_trim s = trim_end (dropWhile is_whitespace s)"

text \<open>\<open>s.startsWith(p)\<close> and \<open>s.slice(n)\<close> for a non-negative \<open>n\<close>.\<close>

definition startsWith :: "string \<Rightarrow> string \<Rightarrow> bool" where
  "startsWith s p = prefix p s"

definition slice_from :: "nat \<Rightarrow> string \<Rightarrow> string" where
  "slice_from n s = drop n s"

text \<open>A value of type \<open>null | string\<close> is truthy when it is a non-empty string.\<close>

fun truthy :: "string option \<Rightarrow> bool" where
  "truthy None = False"
| "truthy (Some s) = (s \<noteq> [])"

text \<open>The exceptions the code can raise, by the name or the origin of the error.\<close>

datatype js_error =
    TypeError
  | NoReleaseFoundError
  | BadPlatformError
  | ExecError
  | FetchError
  | WriteError

section \<open>Regular expressions built by \<open>utilities.ts\<close>\<close>

text \<open>
  The abstract syntax covers the constructs that occur in the pattern source
  \<^verbatim>\<open>stylua(-[\dw\-\.]+)?-PLATFORM(-ARCH)?.zip\<close>: literal characters, the dot, groups,
  alternation, the optional quantifier and a character class under \<open>+\<close>.
\<close>

datatype cls_item = Digit | Plain char | Escaped char

datatype regex =
    Str string
  | Dot
  | Group regex
  | Alt regex regex
  | Opt regex
  | PlusClass "cls_item list"
  | Seq regex regex

definition backslash :: char where
  "backslash = CHR 0x5C"

fun cls_item_source :: "cls_item \<Rightarrow> string" where
  "cls_item_source Digit = [backslash, CHR ''d'']"
| "cls_item_source (Plain c) = [c]"
| "cls_item_source (Escaped c) = [backslash, c]"

fun regex_source :: "regex \<Rightarrow> string" where
  "regex_source (Str w) = w"
| "regex_source Dot = ''.''"
| "regex_source (Group r) = ''('' @ regex_source r @ '')''"
| "regex_source (Alt a b) = regex_source a @ ''|'' @ regex_source b"
| "regex_source (Opt r) = regex_source r @ ''?''"
| "regex_source (PlusClass items) = ''['' @ concat (map cls_item_source items) @ '']+''"
| "regex_source (Seq a b) = regex_source a @ regex_source b"

fun cls_item_matches :: "cls_item \<Rightarrow> char \<Rightarrow> bool" where
  "cls_item_matches Digit c = (c \<in> set ''0123456789'')"
| "cls_item_matches (Plain d) c = (c = d)"
| "cls_item_matches (Escaped d) c = (c = d)"

definition cls_matches :: "cls_item list \<Rightarrow> char \<Rightarrow> bool" where
  "cls_matches items c = list_ex (\<lambda>i. cls_item_matches i c) items"

text \<open>The dot matches every character but a line terminator (no \<open>s\<close> flag).\<close>

definition is_line_terminator :: "char \<Rightarrow> bool" where
  "is_line_terminator c \<longleftrightarrow> c = CHR 0x0A \<or> c = CHR 0x0D"

text \<open>
  \<open>class_plus P s\<close> lists what is left of \<open>s\<close> after one or more characters satisfying
  \<open>P\<close>, the longest run first (the quantifier is greedy).
\<close>

fun class_plus :: "(char \<Rightarrow> bool) \<Rightarrow> string \<Rightarrow> string list" where
  "class_plus P [] = []"
| "class_plus P (c # cs) = (if P c then class_plus P cs @ [cs] else [])"

text \<open>
  \<open>rmatch r s\<close> lists, in the order a backtracking matcher tries them, the remainders of
  \<open>s\<close> after a match of \<open>r\<close> at the start of \<open>s\<close>.
\<close>

fun rmatch :: "regex \<Rightarrow> string \<Rightarrow> string list" where
  "rmatch (Str w) s = (if prefix w s then [drop (length w) s] else [])"
| "rmatch Dot s = (case s of [] \<Rightarrow> [] | c # cs \<Rightarrow> if is_line_terminator c then [] else [cs])"
| "rmatch (Group r) s = rmatch r s"
| "rmatch (Alt a b) s = rmatch a s @ rmatch b s"
| "rmatch (Opt r) s = rmatch r s @ [s]"
| "rmatch (PlusClass items) s = class_plus (cls_matches items) s"
| "rmatch (Seq a b) s = concat (map (rmatch b) (rmatch a s))"

fun tails :: "string \<Rightarrow> string list" where
  "tails [] = [[]]"
| "tails (c # cs) = (c # cs) # tails cs"

text \<open>\<open>RegExp.prototype.test\<close> without flags: a match may start at any index.\<close>

definition test :: "regex \<Rightarrow> string \<Rightarrow> bool" where
  "test r s = list_ex (\<lambda>t. rmatch r t \<noteq> []) (tails s)"

section \<open>\<open>utilities.ts\<close>\<close>

definition getDownloadOutputFilename :: "string \<Rightarrow> js_error + string" where
  "getDownloadOutputFilename platform =
     (if platform = ''win32'' then Inr ''stylua.exe''
      else if platform = ''linux'' \<or> platform = ''darwin'' then Inr ''stylua''
      else Inl BadPlatformError)"

definition version_class :: "cls_item list" where
  "version_class = [Digit, Plain (CHR ''w''), Escaped (CHR ''-''), Escaped (CHR ''.'')]"

definition getAssetFilenamePatternForPlatform :: "string \<Rightarrow> string \<Rightarrow> js_error + regex" where
  "getAssetFilenamePatternForPlatform platform architecture =
     (case (if platform = ''win32'' then Inr (Group (Alt (Str ''windows'') (Str ''win64'')))
            else if platform = ''linux'' then Inr (Str ''linux'')
            else if platform = ''darwin'' then Inr (Str ''macos'')
            else Inl BadPlatformError) of
        Inl e \<Rightarrow> Inl e
      | Inr platformPattern \<Rightarrow>
          (let architecturePattern =
                 (if architecture = ''arm64'' then ''aarch64''
                  else if architecture = ''x64'' then ''x86_64''
                  else '''')
           in Inr (Seq (Str ''stylua'')
                  (Seq (Opt (Group (Seq (Str ''-'') (PlusClass version_class))))
                  (Seq (Str ''-'')
                  (Seq platformPattern
                  (Seq (Opt (Group (Seq (Str ''-'') (Str architecturePattern))))
                  (Seq Dot (Str ''zip'')))))))))"

definition getAssetFilenamePattern :: "string \<Rightarrow> string \<Rightarrow> js_error + regex" where
  "getAssetFilenamePattern os_platform process_arch =
     getAssetFilenamePatternForPlatform os_platform process_arch"

section \<open>\<open>github.ts\<close>\<close>

text \<open>
  The value of \<open>response.json()\<close>.  An object is the list of its members in source
  order; \<open>JSON.parse\<close> keeps the last of several members with one key.
\<close>

datatype json =
    JNull
  | JBool bool
  | JNum rat
  | JStr string
  | JArr "json list"
  | JObj "(string \<times> json) list"

fun js_typeof :: "json \<Rightarrow> string" where
  "js_typeof JNull = ''object''"
| "js_typeof (JBool b) = ''boolean''"
| "js_typeof (JNum n) = ''number''"
| "js_typeof (JStr s) = ''string''"
| "js_typeof (JArr xs) = ''object''"
| "js_typeof (JObj kvs) = ''object''"

text \<open>
  \<open>get_property v k\<close> is the member access \<open>v.k\<close> for the keys the code reads
  (\<open>assets\<close>, \<open>html_url\<close>, \<open>tag_name\<close>, \<open>browser_download_url\<close>, \<open>name\<close>), none of
  which is a built-in property of an array or of a primitive: reading from \<open>null\<close>
  throws a TypeError, a missing member is \<open>undefined\<close> (here \<open>None\<close>).
\<close>

fun get_property :: "json \<Rightarrow> string \<Rightarrow> js_error + json option" where
  "get_property JNull k = Inl TypeError"
| "get_property (JObj kvs) k = Inr (map_of (rev kvs) k)"
| "get_property v k = Inr None"

fun string_or_empty :: "json option \<Rightarrow> string" where
  "string_or_empty (Some (JStr s)) = s"
| "string_or_empty v = []"

record GitHubAsset =
  downloadUrl :: string
  name :: string

record GitHubRelease =
  assets :: "GitHubAsset list"
  htmlUrl :: string
  tagName :: string

text \<open>\<open>Array.prototype.map\<close> with a callback that may throw: the first exception ends it.\<close>

fun map_throwing :: "('a \<Rightarrow> js_error + 'b) \<Rightarrow> 'a list \<Rightarrow> js_error + 'b list" where
  "map_throwing f [] = Inr []"
| "map_throwing f (x # xs) =
     (case f x of
        Inl e \<Rightarrow> Inl e
      | Inr y \<Rightarrow> (case map_throwing f xs of Inl e \<Rightarrow> Inl e | Inr ys \<Rightarrow> Inr (y # ys)))"

definition assetFromJson :: "json \<Rightarrow> js_error + GitHubAsset" where
  "assetFromJson asset =
     (case get_property asset ''browser_download_url'' of
        Inl e \<Rightarrow> Inl e
      | Inr url \<Rightarrow>
          (case get_property asset ''name'' of
             Inl e \<Rightarrow> Inl e
           | Inr n \<Rightarrow> Inr \<lparr>downloadUrl = string_or_empty url, name = string_or_empty n\<rparr>))"

definition releaseFromJson :: "json \<Rightarrow> js_error + GitHubRelease" where
  "releaseFromJson json =
     (if js_typeof json \<noteq> ''object'' then Inr \<lparr>assets = [], htmlUrl = [], tagName = []\<rparr>
      else
        (case get_property json ''assets'' of
           Inl e \<Rightarrow> Inl e
         | Inr a \<Rightarrow>
             (case (case a of Some (JArr xs) \<Rightarrow> map_throwing assetFromJson xs | _ \<Rightarrow> Inr []) of
                Inl e \<Rightarrow> Inl e
              | Inr as \<Rightarrow>
                  (case get_property json ''html_url'' of
                     Inl e \<Rightarrow> Inl e
                   | Inr h \<Rightarrow>
                       (case get_property json ''tag_name'' of
                          Inl e \<Rightarrow> Inl e
                        | Inr t \<Rightarrow>
                            Inr \<lparr>assets = as, htmlUrl = string_or_empty h,
                                 tagName = string_or_empty t\<rparr>)))))"

definition RELEASES_URL :: string where
  "RELEASES_URL = ''https://api.github.com/repos/JohnnyMorganz/StyLua/releases''"

definition RELEASES_URL_LATEST :: string where
  "RELEASES_URL_LATEST = RELEASES_URL @ ''/latest''"

text \<open>
  The class \<open>GitHub\<close>: its credential, and the network it talks to.  \<open>fetchJson\<close> is the
  outcome of the request for a URL and an optional token (a network failure or a body
  that is not JSON is an exception).
\<close>

record GitHub =
  credential_session :: "string option"
  credential_token :: "string option"
  fetchJson :: "string \<Rightarrow> string option \<Rightarrow> js_error + json"

definition authenticated :: "'a GitHub_scheme \<Rightarrow> bool" where
  "authenticated g = truthy (credential_session g)"

definition getAllReleases :: "'a GitHub_scheme \<Rightarrow> js_error + GitHubRelease list" where
  "getAllReleases g =
     (case fetchJson g RELEASES_URL (credential_token g) of
        Inl e \<Rightarrow> Inl e
      | Inr json \<Rightarrow> (case json of JArr xs \<Rightarrow> map_throwing releaseFromJson xs | _ \<Rightarrow> Inr []))"

text \<open>The loop of \<open>getRelease\<close> over the releases, and the exception after it.\<close>

fun first_matching_release :: "string \<Rightarrow> GitHubRelease list \<Rightarrow> js_error + GitHubRelease" where
  "first_matching_release version [] = Inl NoReleaseFoundError"
| "first_matching_release version (release # releases) =
     (if startsWith (tagName release) version then Inr release
      else first_matching_release version releases)"

definition getRelease :: "'a GitHub_scheme \<Rightarrow> string \<Rightarrow> js_error + GitHubRelease" where
  "getRelease g version =
     (if version = ''latest'' then
        (case fetchJson g RELEASES_URL_LATEST (credential_token g) of
           Inl e \<Rightarrow> Inl e
         | Inr json \<Rightarrow> releaseFromJson json)
      else
        (let version' = (if startsWith version ''v'' then version else ''v'' @ version)
         in case getAllReleases g of
              Inl e \<Rightarrow> Inl e
            | Inr releases \<Rightarrow> first_matching_release version' releases))"

section \<open>\<open>download.ts\<close>\<close>

subsection \<open>The environment of the extension\<close>

text \<open>
  The enumeration \<open>StyluaType\<close> is declared in \<open>meta/stylua-type\<close>; the code only
  tells \<open>Standard\<close> from the other member.
\<close>

datatype StyluaType = Standard | React

datatype ResolveMode = Bundled | Configuration | Path

record StyluaInfo =
  paths :: "string \<times> string"
  resolveMode :: ResolveMode
  version :: "string option"

type_synonym bytes = "8 word list"

text \<open>
  What \<open>unzip.Parse\<close> emits for the body of a download: entries with their path and
  data, an entry whose data breaks off in a decompression error, or input that is no
  archive at all.  \<open>FetchFailed\<close> is a rejected \<open>fetch\<close>.
\<close>

datatype zip_item = Entry string bytes | BrokenEntry string bytes | Garbage

datatype http_body = FetchFailed | Body "zip_item list"

text \<open>The outcome of \<open>authentication.getSession\<close>.\<close>

datatype session_result = Session string string | NoSession | NoConsent | SessionFailed

text \<open>The side effects that are visible outside the downloader, in the order they happen.\<close>

datatype event =
    OutputInfo string
  | OutputError string
  | WhichLookup
  | Exec string
  | CreateDirectory string
  | WithProgress string
  | ShowErrorMessage string
  | ShowWarningMessage js_error
  | AuthenticationPrompt
  | IncorrectVersionPrompt string string
  | StatusBarHide
  | ShowUpdateAvailable GitHubRelease

text \<open>
  The settings of the section \<open>stylua\<close>, the host, the file system (a file is its mode
  and its content; the directories that exist), the network, the user, and the log of
  events.  \<open>version_stdout p b\<close>
  is what running the file at \<open>p\<close> with content \<open>b\<close> and the argument \<open>--version\<close>
  prints, or the error of \<open>exec\<close>.  \<open>write_capacity\<close>, when set, is the number of bytes
  the storage accepts before a write fails.
\<close>

record world =
  styluaPath :: "string option"
  styluaRoactPath :: "string option"
  searchBinaryInPATH :: bool
  targetReleaseVersion :: "string option"
  releaseVersion :: "string option"
  disableVersionCheck :: bool
  os_platform :: string
  process_arch :: string
  storageDirectory :: string
  which_stylua :: "string option"
  files :: "string \<Rightarrow> (nat \<times> bytes) option"
  directories :: "string set"
  version_stdout :: "string \<Rightarrow> bytes \<Rightarrow> js_error + string"
  github :: GitHub
  fetch_archive :: "string \<Rightarrow> http_body"
  write_capacity :: "nat option"
  getSession :: session_result
  user_authenticates :: bool
  events :: "event list"

text \<open>
  The package \<open>semver\<close> is a dependency of the extension; the functions that use it
  take its three operations as a parameter.
\<close>

record 'v semver =
  semver_coerce :: "string \<Rightarrow> 'v option"
  semver_parse :: "string \<Rightarrow> 'v option"
  semver_neq :: "'v \<Rightarrow> 'v \<Rightarrow> bool"

text \<open>An asynchronous call returns, throws, or leaves its promise pending for ever.\<close>

datatype 'a completion = Returned 'a | Thrown js_error | NeverSettles

definition emit :: "event \<Rightarrow> world \<Rightarrow> world" where
  "emit e w = w\<lparr>events := events w @ [e]\<rparr>"

fun truthy_value :: "string option \<Rightarrow> string option" where
  "truthy_value None = None"
| "truthy_value (Some s) = (if s = [] then None else Some s)"

definition joinPath :: "string \<Rightarrow> string \<Rightarrow> string" where
  "joinPath dir file = dir @ ''/'' @ file"

text \<open>The directory of a path: what precedes its last separator.\<close>

definition dirname :: "string \<Rightarrow> string" where
  "dirname p = rev (tl (dropWhile (\<lambda>c. c \<noteq> CHR ''/'') (rev p)))"

text \<open>\<open>vscode.workspace.fs.createDirectory(uri)\<close>.\<close>

definition createDirectory :: "world \<Rightarrow> string \<Rightarrow> world" where
  "createDirectory w d = (emit (CreateDirectory d) w)\<lparr>directories := insert d (directories w)\<rparr>"

definition fileExists :: "world \<Rightarrow> string \<Rightarrow> bool" where
  "fileExists w p \<longleftrightarrow> files w p \<noteq> None"

definition getDesiredVersion :: "world \<Rightarrow> string" where
  "getDesiredVersion w =
     (let targetVersion = js_trim (case targetReleaseVersion w of None \<Rightarrow> [] | Some s \<Rightarrow> s)
      in if length targetVersion = 0
         then (case releaseVersion w of None \<Rightarrow> ''latest'' | Some s \<Rightarrow> s)
         else targetVersion)"

subsection \<open>\<open>github.authenticate\<close>\<close>

fun credential_set :: "(string \<times> string) option \<Rightarrow> GitHub \<Rightarrow> GitHub" where
  "credential_set (Some (session_id, accessToken)) g =
     g\<lparr>credential_session := Some session_id, credential_token := Some accessToken\<rparr>"
| "credential_set None g = g\<lparr>credential_session := None, credential_token := None\<rparr>"

definition authenticate :: "world \<Rightarrow> bool \<times> world" where
  "authenticate w =
     (case getSession w of
        Session session_id accessToken \<Rightarrow>
          (let w' = w\<lparr>github := credential_set (Some (session_id, accessToken)) (github w)\<rparr>
           in (authenticated (github w'), w'))
      | NoSession \<Rightarrow>
          (let w' = w\<lparr>github := credential_set None (github w)\<rparr>
           in (authenticated (github w'), w'))
      | NoConsent \<Rightarrow> (False, w\<lparr>github := credential_set None (github w)\<rparr>)
      | SessionFailed \<Rightarrow>
          (let w' = emit (ShowErrorMessage ''Failed to authenticate with GitHub'') w
           in (authenticated (github w'), w')))"

subsection \<open>\<open>getStyluaVersion\<close>\<close>

text \<open>\<open>executeStylua(path, ["--version"], cwd)\<close>: a file that is not there cannot run.\<close>

definition executeStylua :: "world \<Rightarrow> string \<Rightarrow> js_error + string" where
  "executeStylua w p =
     (case files w p of None \<Rightarrow> Inl ExecError | Some (m, b) \<Rightarrow> version_stdout w p b)"

definition getStyluaVersion :: "world \<Rightarrow> string \<Rightarrow> string option \<times> world" where
  "getStyluaVersion w p =
     (case executeStylua w p of
        Inl e \<Rightarrow> (None, emit (Exec p) w)
      | Inr versionValue \<Rightarrow>
          (let currentVersion = js_trim versionValue
           in (Some (slice_from (length ''stylua '') currentVersion), emit (Exec p) w)))"

subsection \<open>\<open>findStylua\<close>\<close>

definition bundledStylua :: "world \<Rightarrow> (js_error + StyluaInfo) \<times> world" where
  "bundledStylua w =
     (let w1 = emit (OutputInfo ''Falling back to bundled StyLua version'') w
      in case getDownloadOutputFilename (os_platform w1) of
           Inl e \<Rightarrow> (Inl e, w1)
         | Inr f \<Rightarrow>
             (let downloadPath = joinPath (storageDirectory w1) f
              in (Inr \<lparr>paths = (downloadPath, downloadPath), resolveMode = Bundled,
                       version = None\<rparr>, w1)))"

definition findStylua :: "world \<Rightarrow> (js_error + StyluaInfo) \<times> world" where
  "findStylua w =
     (case truthy_value (styluaPath w) of
        Some settingPath \<Rightarrow>
          (case truthy_value (styluaRoactPath w) of
             Some reactSettingPath \<Rightarrow>
               (Inr \<lparr>paths = (settingPath, reactSettingPath), resolveMode = Configuration,
                     version = None\<rparr>,
                emit (OutputInfo (''Both Stylua paths explicitly configured: '' @ settingPath
                                   @ '' & '' @ reactSettingPath)) w)
           | None \<Rightarrow>
               (Inr \<lparr>paths = (settingPath, settingPath), resolveMode = Configuration,
                     version = None\<rparr>,
                emit (OutputInfo (''Stylua path explicitly configured: '' @ settingPath)) w))
      | None \<Rightarrow>
          (if searchBinaryInPATH w then
             (let w1 = emit WhichLookup (emit (OutputInfo ''Searching for stylua on PATH'') w)
              in case truthy_value (which_stylua w1) of
                   Some resolvedPath \<Rightarrow>
                     (let w2 = emit (OutputInfo (''Stylua found on PATH: '' @ resolvedPath)) w1
                      in case getStyluaVersion w2 resolvedPath of
                           (v, w3) \<Rightarrow>
                             if truthy v
                             then (Inr \<lparr>paths = (resolvedPath, resolvedPath),
                                        resolveMode = Path, version = None\<rparr>, w3)
                             else bundledStylua
                                    (emit (OutputError
                                       ''Stylua binary found on PATH failed to execute'') w3))
                 | None \<Rightarrow> bundledStylua w1)
           else bundledStylua w))"

subsection \<open>\<open>downloadStylua\<close>\<close>

text \<open>
  \<open>createWriteStream(path, {mode: 0o755})\<close> opens the file with the flag \<open>w\<close>: it is
  created with the mode when it is not there, and truncated when it is.  When the
  directory of the path does not exist the open fails (ENOENT) and there is no file
  (\<open>None\<close>): the stream emits its \<open>error\<close> before \<open>downloadStylua\<close> has attached a
  listener for it, and nothing written to the stream reaches the disk.
\<close>

definition mode_755 :: nat where
  "mode_755 = 7 * 64 + 5 * 8 + 5"

definition createWriteStream :: "world \<Rightarrow> string \<Rightarrow> world option" where
  "createWriteStream w p =
     (if dirname p \<in> directories w
      then Some (w\<lparr>files := (files w)(p \<mapsto>
                  (case files w p of None \<Rightarrow> (mode_755, []) | Some (m, b) \<Rightarrow> (m, [])))\<rparr>)
      else None)"

text \<open>The bytes of an entry piped into the file, as far as the storage takes them.\<close>

definition pipe_to_file :: "world \<Rightarrow> string \<Rightarrow> bytes \<Rightarrow> bool \<times> world" where
  "pipe_to_file w p b =
     (let accepted = (case write_capacity w of None \<Rightarrow> b | Some n \<Rightarrow> take n b);
          mode = (case files w p of None \<Rightarrow> mode_755 | Some (m, old) \<Rightarrow> m)
      in (length accepted = length b, w\<lparr>files := (files w)(p \<mapsto> (mode, accepted))\<rparr>))"

text \<open>
  The handler of \<open>entry\<close>: an entry with another path is drained; the entry named
  \<open>outputFilename\<close> is piped into the file, whose \<open>finish\<close> resolves the promise and whose
  \<open>error\<close> rejects it.  Nothing settles the promise when the archive ends, or breaks,
  before that.
\<close>

fun on_entries :: "world \<Rightarrow> string \<Rightarrow> string \<Rightarrow> zip_item list \<Rightarrow> unit completion \<times> world" where
  "on_entries w p outputFilename [] = (NeverSettles, w)"
| "on_entries w p outputFilename (Garbage # items) = (NeverSettles, w)"
| "on_entries w p outputFilename (Entry entry_path b # items) =
     (if entry_path \<noteq> outputFilename then on_entries w p outputFilename items
      else (case pipe_to_file w p b of
              (True, w') \<Rightarrow> (Returned (), w')
            | (False, w') \<Rightarrow> (Thrown WriteError, w')))"
| "on_entries w p outputFilename (BrokenEntry entry_path b # items) =
     (if entry_path \<noteq> outputFilename then (NeverSettles, w)
      else (case pipe_to_file w p b of
              (True, w') \<Rightarrow> (NeverSettles, w')
            | (False, w') \<Rightarrow> (Thrown WriteError, w')))"

text \<open>
  The body of the loop for a matching asset.  A stream whose open has failed is
  destroyed: what is piped into it later is dropped, and neither \<open>finish\<close> nor a
  further \<open>error\<close> is emitted, so the promise stays pending.
\<close>

definition download_asset :: "world \<Rightarrow> string \<Rightarrow> GitHubAsset \<Rightarrow> unit completion \<times> world" where
  "download_asset w outputFilename asset =
     (let p = joinPath (storageDirectory w) outputFilename
      in case createWriteStream w p of
           None \<Rightarrow> (NeverSettles, w)
         | Some w' \<Rightarrow>
             (case fetch_archive w' (downloadUrl asset) of
                FetchFailed \<Rightarrow> (NeverSettles, w')
              | Body items \<Rightarrow> on_entries w' p outputFilename items))"

text \<open>The loop over \<open>release.assets\<close>; the function returns when the loop ends.\<close>

fun for_assets :: "world \<Rightarrow> regex \<Rightarrow> string \<Rightarrow> GitHubAsset list \<Rightarrow> unit completion \<times> world" where
  "for_assets w assetFilename outputFilename [] = (Returned (), w)"
| "for_assets w assetFilename outputFilename (asset # rest) =
     (if test assetFilename (name asset) then download_asset w outputFilename asset
      else for_assets w assetFilename outputFilename rest)"

definition downloadStylua :: "world \<Rightarrow> string \<Rightarrow> unit completion \<times> world" where
  "downloadStylua w ver =
     (case getRelease (github w) ver of
        Inl e \<Rightarrow> (Thrown e, w)
      | Inr release \<Rightarrow>
          (case getAssetFilenamePattern (os_platform w) (process_arch w) of
             Inl e \<Rightarrow> (Thrown e, w)
           | Inr assetFilename \<Rightarrow>
               (case getDownloadOutputFilename (os_platform w) of
                  Inl e \<Rightarrow> (Thrown e, w)
                | Inr outputFilename \<Rightarrow>
                    for_assets w assetFilename outputFilename (assets release))))"

definition downloadStyluaVisual :: "world \<Rightarrow> string \<Rightarrow> unit completion \<times> world" where
  "downloadStyluaVisual w ver = downloadStylua (emit (WithProgress ver) w) ver"

subsection \<open>\<open>ensureStyluaExists\<close>\<close>

fun select_path :: "StyluaType \<Rightarrow> string \<times> string \<Rightarrow> string" where
  "select_path ty (standard, react) = (if ty = Standard then standard else react)"

text \<open>The block under the comment \<open>Check bundled version matches requested version\<close>.\<close>

definition check_requested_version :: "'v semver \<Rightarrow> string option \<Rightarrow> world \<Rightarrow> world" where
  "check_requested_version lib v w =
     (let desiredVersion = getDesiredVersion w
      in case truthy_value v of
           None \<Rightarrow> w
         | Some currentVersion \<Rightarrow>
             if desiredVersion \<noteq> ''latest'' then
               (case (semver_coerce lib desiredVersion, semver_parse lib currentVersion) of
                  (Some desiredVersionSemver, Some styluaVersionSemver) \<Rightarrow>
                    if semver_neq lib desiredVersionSemver styluaVersionSemver
                    then emit (IncorrectVersionPrompt currentVersion desiredVersion) w
                    else w
                | _ \<Rightarrow> w)
             else w)"

definition strip_v :: "string \<Rightarrow> string" where
  "strip_v tag = (if startsWith tag ''v'' then slice_from 1 tag else tag)"

text \<open>
  The block under the comment \<open>Check for latest version\<close>.  Its result says whether the
  function goes on to its \<open>return stylua\<close> (\<open>False\<close>) or returns the value of a second
  call \<open>this.ensureStyluaExists(cwd)\<close> (\<open>True\<close>).
\<close>

definition check_latest_version :: "string option \<Rightarrow> world \<Rightarrow> bool \<times> world" where
  "check_latest_version v w =
     (if disableVersionCheck w then (False, emit StatusBarHide w)
      else
        (case getRelease (github w) ''latest'' of
           Inr latestRelease \<Rightarrow>
             if v = Some (strip_v (tagName latestRelease))
             then (False, emit StatusBarHide w)
             else (False, emit (ShowUpdateAvailable latestRelease) w)
         | Inl error \<Rightarrow>
             (let w1 = emit (ShowWarningMessage error) w
              in if \<not> authenticated (github w1) then
                   (let w2 = emit AuthenticationPrompt w1
                    in if user_authenticates w2 then
                         (case authenticate w2 of
                            (True, w3) \<Rightarrow> (True, w3)
                          | (False, w3) \<Rightarrow> (False, w3))
                       else (False, w2))
                 else (False, w1))))"

text \<open>
  One run of the body of \<open>ensureStyluaExists\<close>: \<open>Done\<close> with what the function returns
  or throws, or \<open>Again\<close> where the body returns the value of a second call.
\<close>

datatype pass = Done "StyluaInfo option completion" | Again

definition ensure_pass :: "'v semver \<Rightarrow> world \<Rightarrow> StyluaType \<Rightarrow> pass \<times> world" where
  "ensure_pass lib w styluaType =
     (case findStylua w of
        (Inl e, w1) \<Rightarrow> (Done (Thrown e), w1)
      | (Inr stylua, w1) \<Rightarrow>
          (case resolveMode stylua of
             Bundled \<Rightarrow>
               (let p = select_path styluaType (paths stylua)
                in case (if \<not> fileExists w1 p
                         then downloadStyluaVisual
                                (createDirectory w1 (storageDirectory w1))
                                (getDesiredVersion w1)
                         else (Returned (), w1)) of
                     (Thrown e, w2) \<Rightarrow> (Done (Thrown e), w2)
                   | (NeverSettles, w2) \<Rightarrow> (Done NeverSettles, w2)
                   | (Returned u, w2) \<Rightarrow>
                       (case getStyluaVersion w2 p of
                          (v, w3) \<Rightarrow>
                            (case check_latest_version v (check_requested_version lib v w3) of
                               (True, w4) \<Rightarrow> (Again, w4)
                             | (False, w4) \<Rightarrow>
                                 (Done (Returned (Some (stylua\<lparr>version := v\<rparr>))), w4))))
           | Configuration \<Rightarrow>
               (let p = select_path styluaType (paths stylua)
                in if \<not> fileExists w1 p
                   then (Done (Returned None),
                         emit (ShowErrorMessage
                           (''The path given for StyLua ('' @ p @ '') does not exist'')) w1)
                   else (case getStyluaVersion w1 p of
                           (v, w2) \<Rightarrow> (Done (Returned (Some (stylua\<lparr>version := v\<rparr>))), w2)))
           | Path \<Rightarrow>
               (case getStyluaVersion w1 (select_path styluaType (paths stylua)) of
                  (v, w2) \<Rightarrow> (Done (Returned (Some (stylua\<lparr>version := v\<rparr>))), w2))))"

text \<open>
  The second call is made only when no credential is set, and after \<open>authenticate\<close> has
  set one; it then cannot be made again.
\<close>

lemma github_emit: "github (emit e w) = github w"
  by (simp add: emit_def)

lemma github_getStyluaVersion: "getStyluaVersion w p = (v, w') \<Longrightarrow> github w' = github w"
  by (auto simp: getStyluaVersion_def github_emit split: sum.splits)

lemma github_bundledStylua: "bundledStylua w = (r, w') \<Longrightarrow> github w' = github w"
  by (auto simp: bundledStylua_def Let_def github_emit split: sum.splits)

lemma github_findStylua: "findStylua w = (r, w') \<Longrightarrow> github w' = github w"
  by (auto simp: findStylua_def Let_def github_emit
      split: option.splits prod.splits if_splits
      dest!: github_getStyluaVersion github_bundledStylua)

lemma github_pipe_to_file: "pipe_to_file w p b = (ok, w') \<Longrightarrow> github w' = github w"
  by (auto simp: pipe_to_file_def Let_def)

lemma github_on_entries: "on_entries w p out items = (r, w') \<Longrightarrow> github w' = github w"
  by (induction w p out items rule: on_entries.induct)
     (auto split: if_splits prod.splits bool.splits dest: github_pipe_to_file)

lemma github_createDirectory: "github (createDirectory w d) = github w"
  by (simp add: createDirectory_def emit_def)

lemma github_download_asset: "download_asset w out a = (r, w') \<Longrightarrow> github w' = github w"
  by (auto simp: download_asset_def Let_def createWriteStream_def
      split: http_body.splits option.splits if_splits dest: github_on_entries)

lemma github_for_assets: "for_assets w pat out as = (r, w') \<Longrightarrow> github w' = github w"
  by (induction as) (auto split: if_splits dest: github_download_asset)

lemma github_downloadStylua: "downloadStylua w v = (r, w') \<Longrightarrow> github w' = github w"
  by (auto simp: downloadStylua_def split: sum.splits dest: github_for_assets)

lemma github_downloadStyluaVisual: "downloadStyluaVisual w v = (r, w') \<Longrightarrow> github w' = github w"
  by (auto simp: downloadStyluaVisual_def github_emit dest: github_downloadStylua)

lemma github_check_requested_version: "github (check_requested_version lib v w) = github w"
  by (simp add: check_requested_version_def Let_def github_emit split: option.split)

lemma authenticate_True: "authenticate w = (True, w') \<Longrightarrow> authenticated (github w')"
  by (auto simp: authenticate_def Let_def split: session_result.splits)

lemma check_latest_version_again:
  "check_latest_version v w = (True, w') \<Longrightarrow> \<not> authenticated (github w) \<and> authenticated (github w')"
  by (auto simp: check_latest_version_def Let_def github_emit
      split: if_splits sum.splits prod.splits bool.splits dest: authenticate_True)

lemma ensure_pass_again:
  assumes "ensure_pass lib w ty = (Again, w')"
  shows "\<not> authenticated (github w) \<and> authenticated (github w')"
proof -
  from assms obtain stylua w1 u w2 v w3 where
    f: "findStylua w = (Inr stylua, w1)" and
    d: "(if \<not> fileExists w1 (select_path ty (paths stylua))
         then downloadStyluaVisual (createDirectory w1 (storageDirectory w1))
                (getDesiredVersion w1)
         else (Returned (), w1)) = (Returned u, w2)" and
    g: "getStyluaVersion w2 (select_path ty (paths stylua)) = (v, w3)" and
    c: "check_latest_version v (check_requested_version lib v w3) = (True, w')"
    by (auto simp: ensure_pass_def Let_def
        split: prod.splits sum.splits ResolveMode.splits completion.splits bool.splits if_splits)
  have "github w1 = github w"
    using f by (rule github_findStylua)
  moreover have "github w2 = github w1"
    using d by (auto split: if_splits dest: github_downloadStyluaVisual
        simp: github_createDirectory)
  moreover have "github w3 = github w2"
    using g by (rule github_getStyluaVersion)
  ultimately show ?thesis
    using check_latest_version_again [OF c] by (simp add: github_check_requested_version)
qed

function ensureStyluaExists ::
  "'v semver \<Rightarrow> world \<Rightarrow> StyluaType \<Rightarrow> StyluaInfo option completion \<times> world" where
  "ensureStyluaExists lib w styluaType =
     (case ensure_pass lib w styluaType of
        (Done r, w') \<Rightarrow> (r, w')
      | (Again, w') \<Rightarrow> ensureStyluaExists lib w' Standard)"
  by pat_completeness auto
termination
proof (relation "measure (\<lambda>(lib, w, ty). if authenticated (github w) then 0 else 1)")
  show "wf (measure (\<lambda>(lib, w, ty). if authenticated (github w) then 0 else (1::nat)))"
    by simp
next
  fix lib :: "'v semver" and w :: world and styluaType x w'
  assume "(x, w') = ensure_pass lib w styluaType" "x = Again"
  then have "ensure_pass lib w styluaType = (Again, w')"
    by simp
  from ensure_pass_again [OF this]
  show "((lib, w', Standard), (lib, w, styluaType))
          \<in> measure (\<lambda>(lib, w, ty). if authenticated (github w) then 0 else 1)"
    by simp
qed

section \<open>Vocabulary of the properties\<close>

subsection \<open>Artifact names\<close>

text \<open>
  The names \<open>stylua-<ver>-<platform>-<arch>.zip\<close>, the names
  \<open>stylua-<ver>-<platform>.zip\<close> without an architecture, the name fragments of the platforms
  and of the architectures, and the texts a version segment is made of (the
  characters of the class in the pattern).
\<close>

definition artifact_name :: "string \<Rightarrow> string \<Rightarrow> string \<Rightarrow> string" where
  "artifact_name ver plat arch = ''stylua-'' @ ver @ ''-'' @ plat @ ''-'' @ arch @ ''.zip''"

definition legacy_name :: "string \<Rightarrow> string \<Rightarrow> string" where
  "legacy_name ver plat = ''stylua-'' @ ver @ ''-'' @ plat @ ''.zip''"

definition supported_platform :: "string \<Rightarrow> bool" where
  "supported_platform p \<longleftrightarrow> p \<in> set [''win32'', ''linux'', ''darwin'']"

definition platform_fragments :: "string \<Rightarrow> string list" where
  "platform_fragments p =
     (if p = ''win32'' then [''windows'', ''win64'']
      else if p = ''linux'' then [''linux'']
      else if p = ''darwin'' then [''macos'']
      else [])"

definition platform_pattern_source :: "string \<Rightarrow> string" where
  "platform_pattern_source p =
     (if p = ''win32'' then ''(windows|win64)'' else if p = ''linux'' then ''linux'' else ''macos'')"

definition all_platform_fragments :: "string list" where
  "all_platform_fragments = [''windows'', ''win64'', ''linux'', ''macos'']"

definition architecture_fragment :: "string \<Rightarrow> string" where
  "architecture_fragment a =
     (if a = ''arm64'' then ''aarch64'' else if a = ''x64'' then ''x86_64'' else [])"

definition all_architecture_fragments :: "string list" where
  "all_architecture_fragments = [''aarch64'', ''x86_64'', []]"

definition version_text :: "string \<Rightarrow> bool" where
  "version_text ver = list_all (cls_matches version_class) ver"

fun has_pair :: "char \<Rightarrow> char \<Rightarrow> string \<Rightarrow> bool" where
  "has_pair c d [] = False"
| "has_pair c d [x] = False"
| "has_pair c d (x # y # zs) = ((x = c \<and> y = d) \<or> has_pair c d (y # zs))"

subsection \<open>The bytes of a download\<close>



subsection \<open>Concrete environments\<close>

text \<open>
  A Linux host without configuration, files or network; a release as the API sends
  it; a GitHub whose listing endpoint answers with a given value.
\<close>

definition offline_world :: world where
  "offline_world =
     \<lparr>styluaPath = None, styluaRoactPath = None, searchBinaryInPATH = False,
      targetReleaseVersion = None, releaseVersion = None, disableVersionCheck = False,
      os_platform = ''linux'', process_arch = ''x64'', storageDirectory = ''/storage'',
      which_stylua = None, files = Map.empty, directories = {}, version_stdout = (\<lambda>p b. Inl ExecError),
      github = \<lparr>credential_session = None, credential_token = None,
                fetchJson = (\<lambda>url token. Inl FetchError)\<rparr>,
      fetch_archive = (\<lambda>url. FetchFailed), write_capacity = None,
      getSession = NoConsent, user_authenticates = False, events = []\<rparr>"

definition release_json :: "string \<Rightarrow> string list \<Rightarrow> json" where
  "release_json tag asset_names =
     JObj [(''tag_name'', JStr tag), (''html_url'', JStr (''https://github.com/'' @ tag)),
           (''assets'', JArr (map (\<lambda>n. JObj [(''name'', JStr n),
               (''browser_download_url'', JStr (''https://github.com/'' @ n))]) asset_names))]"

definition listing_github :: "json \<Rightarrow> GitHub" where
  "listing_github listing =
     \<lparr>credential_session = None, credential_token = None,
      fetchJson = (\<lambda>url token. if url = RELEASES_URL then Inr listing else Inl FetchError)\<rparr>"

text \<open>A host whose binary at \<open>/usr/bin/stylua\<close> prints a given text.\<close>

definition version_world :: "string \<Rightarrow> world" where
  "version_world out =
     offline_world\<lparr>files := [''/usr/bin/stylua'' \<mapsto> (mode_755, [])],
                   directories := {''/usr/bin''},
                   version_stdout := (\<lambda>p b. Inr out)\<rparr>"

text \<open>
  A GitHub whose endpoint for the latest release answers with a given value; a host
  whose latest release has the given asset names and whose downloads have the given
  body; the same host with a binary already in the storage directory.
\<close>

definition latest_github :: "json \<Rightarrow> GitHub" where
  "latest_github latest =
     \<lparr>credential_session = None, credential_token = None,
      fetchJson = (\<lambda>url token. if url = RELEASES_URL_LATEST then Inr latest else Inl FetchError)\<rparr>"

definition download_world :: "string list \<Rightarrow> http_body \<Rightarrow> world" where
  "download_world asset_names body =
     offline_world\<lparr>github := latest_github (release_json ''v2.1.0'' asset_names),
                   fetch_archive := (\<lambda>url. body)\<rparr>"


subsection \<open>Events of a run\<close>

definition new_events :: "world \<Rightarrow> world \<Rightarrow> event list" where
  "new_events w w' = drop (length (events w)) (events w')"

text \<open>The events of a lookup on the search path and of an acquisition.\<close>

fun search_or_download :: "event \<Rightarrow> bool" where
  "search_or_download WhichLookup = True"
| "search_or_download (CreateDirectory d) = True"
| "search_or_download (WithProgress v) = True"
| "search_or_download e = False"

text \<open>The events that are no signal of the version checks.\<close>

fun quiet :: "event \<Rightarrow> bool" where
  "quiet (IncorrectVersionPrompt c r) = False"
| "quiet StatusBarHide = False"
| "quiet (ShowUpdateAvailable r) = False"
| "quiet e = True"

subsection \<open>A stand-in for the package \<open>semver\<close>\<close>

text \<open>
  It reads the version strings \<open>MAJOR.MINOR.PATCH\<close> of decimal numbers, on which
  \<open>coerce\<close> and \<open>parse\<close> of the package agree, and nothing else.  It instantiates the
  parameter at concrete inputs.
\<close>

definition read_number :: "string \<Rightarrow> nat option" where
  "read_number s =
     (if s \<noteq> [] \<and> list_all (\<lambda>c. c \<in> set ''0123456789'') s
      then Some (foldl (\<lambda>n c. 10 * n + (of_char c - 48)) 0 s)
      else None)"

fun split_dots :: "string \<Rightarrow> string list" where
  "split_dots [] = [[]]"
| "split_dots (c # cs) =
     (if c = CHR ''.'' then [] # split_dots cs
      else (case split_dots cs of [] \<Rightarrow> [[c]] | part # parts \<Rightarrow> (c # part) # parts))"

definition read_triple :: "string \<Rightarrow> (nat \<times> nat \<times> nat) option" where
  "read_triple s =
     (case map read_number (split_dots s) of
        [Some major, Some minor, Some patch] \<Rightarrow> Some (major, minor, patch)
      | _ \<Rightarrow> None)"

definition plain_semver :: "(nat \<times> nat \<times> nat) semver" where
  "plain_semver = \<lparr>semver_coerce = read_triple, semver_parse = read_triple, semver_neq = (\<noteq>)\<rparr>"

subsection \<open>Hosts with an installed binary\<close>

text \<open>
  The binary prints version 1.9.0, the setting \<open>targetReleaseVersion\<close> asks for 1.2.0
  and the latest release is v2.0.0.  In \<open>bundled_world\<close> the binary is the one in the
  storage directory; in \<open>configured_world\<close> it is at the configured path, and a lookup
  on the search path is enabled as well.
\<close>

definition bundled_world :: world where
  "bundled_world =
     offline_world\<lparr>targetReleaseVersion := Some ''1.2.0'',
                   files := [''/storage/stylua'' \<mapsto> (mode_755, [1, 2, 3])],
                   directories := {''/storage''},
                   version_stdout := (\<lambda>p b. Inr (''stylua 1.9.0'' @ [CHR 0x0A])),
                   github := latest_github (release_json ''v2.0.0'' [])\<rparr>"

definition configured_world :: world where
  "configured_world =
     offline_world\<lparr>styluaPath := Some ''/opt/stylua'',
                   searchBinaryInPATH := True,
                   which_stylua := Some ''/usr/bin/stylua'',
                   targetReleaseVersion := Some ''1.2.0'',
                   files := [''/opt/stylua'' \<mapsto> (mode_755, [1, 2, 3]),
                             ''/usr/bin/stylua'' \<mapsto> (mode_755, [4, 5, 6])],
                   directories := {''/opt'', ''/usr/bin''},
                   version_stdout := (\<lambda>p b. Inr (''stylua 1.9.0'' @ [CHR 0x0A])),
                   github := latest_github (release_json ''v2.0.0'' [])\<rparr>"

subsection \<open>How a run changes the environment\<close>

text \<open>
  \<open>evolves w w' es\<close>: the environment \<open>w'\<close> is \<open>w\<close> after the events \<open>es\<close>, with changes
  to the files, to the directories and to the credential at most.  \<open>mismatch lib desired current\<close> is the
  condition under which the requested and the installed version are told apart.
\<close>

definition evolves :: "world \<Rightarrow> world \<Rightarrow> event list \<Rightarrow> bool" where
  "evolves w w' es \<longleftrightarrow>
     (\<exists>fs ds g. w' = w\<lparr>files := fs, directories := ds, github := g, events := events w @ es\<rparr>)"

definition mismatch :: "'v semver \<Rightarrow> string \<Rightarrow> string \<Rightarrow> bool" where
  "mismatch lib desired current \<longleftrightarrow>
     desired \<noteq> ''latest'' \<and> current \<noteq> [] \<and>
     (\<exists>d s. semver_coerce lib desired = Some d \<and> semver_parse lib current = Some s \<and>
            semver_neq lib d s)"

section \<open>The asset pattern\<close>

lemma class_plus_suffix: "t \<in> set (class_plus P s) \<Longrightarrow> suffix t s"
  by (induction s) (auto simp: suffix_Cons split: if_splits)

lemma rmatch_suffix: "t \<in> set (rmatch r s) \<Longrightarrow> suffix t s"
proof (induction r arbitrary: s t)
  case (Str w)
  then show ?case by (auto simp: suffix_drop split: if_splits)
next
  case Dot
  then show ?case by (auto simp: suffix_Cons split: list.splits if_splits)
next
  case (PlusClass items)
  then show ?case by (simp add: class_plus_suffix)
next
  case (Seq a b)
  then obtain u where "u \<in> set (rmatch a s)" "t \<in> set (rmatch b u)" by auto
  then show ?case using Seq.IH suffix_order.trans by blast
qed auto

lemma class_plus_run:
  "ver \<noteq> [] \<Longrightarrow> \<forall>c\<in>set ver. P c \<Longrightarrow> rest \<in> set (class_plus P (ver @ rest))"
  by (induction ver) auto

lemma tails_suffix: "t \<in> set (tails s) \<Longrightarrow> suffix t s"
  by (induction s) (auto simp: suffix_Cons)

lemma tails_self: "s \<in> set (tails s)"
  by (cases s) auto

lemma test_start: "rmatch r s \<noteq> [] \<Longrightarrow> test r s"
  unfolding test_def list_ex_iff using tails_self by blast

lemma rmatch_Seq_intro: "u \<in> set (rmatch a s) \<Longrightarrow> rmatch b u \<noteq> [] \<Longrightarrow> rmatch (Seq a b) s \<noteq> []"
  by auto

lemma rmatch_Seq_elim:
  assumes "rmatch (Seq a b) s \<noteq> []"
  obtains u where "suffix u s" "rmatch b u \<noteq> []"
proof -
  from assms obtain u where u: "u \<in> set (rmatch a s)" "rmatch b u \<noteq> []"
    by auto
  with rmatch_suffix that show ?thesis by blast
qed

lemma test_reaches_platform:
  assumes "test (Seq a (Seq b c)) s"
  obtains u where "suffix u s" "rmatch c u \<noteq> []"
proof -
  from assms obtain t where t: "t \<in> set (tails s)" "rmatch (Seq a (Seq b c)) t \<noteq> []"
    unfolding test_def list_ex_iff by blast
  from t(2) obtain u1 where u1: "suffix u1 t" "rmatch (Seq b c) u1 \<noteq> []"
    by (rule rmatch_Seq_elim)
  from u1(2) obtain u2 where u2: "suffix u2 u1" "rmatch c u2 \<noteq> []"
    by (rule rmatch_Seq_elim)
  from t(1) u1(1) u2(1) have "suffix u2 s"
    using tails_suffix suffix_order.trans by blast
  with u2(2) that show ?thesis by blast
qed

lemma has_pair_append:
  "has_pair c d (xs @ ys) \<longleftrightarrow>
     has_pair c d xs \<or> has_pair c d ys \<or> (xs \<noteq> [] \<and> ys \<noteq> [] \<and> last xs = c \<and> hd ys = d)"
proof (induction c d xs rule: has_pair.induct)
  case (1 c d)
  then show ?case by simp
next
  case (2 c d x)
  then show ?case by (cases ys) auto
next
  case (3 c d x y zs)
  then show ?case by auto
qed

lemma has_pair_absent: "d \<notin> set xs \<Longrightarrow> \<not> has_pair c d xs"
  by (induction c d xs rule: has_pair.induct) auto

lemma has_pair_suffix: "suffix t s \<Longrightarrow> has_pair c d t \<Longrightarrow> has_pair c d s"
  by (auto simp: suffix_def has_pair_append)

lemma has_pair_prefix: "prefix w t \<Longrightarrow> has_pair c d w \<Longrightarrow> has_pair c d t"
  by (auto simp: prefix_def has_pair_append)


lemma version_prefix_accepts:
  assumes "ver \<noteq> []" "version_text ver" "rmatch T rest \<noteq> []"
  shows "rmatch (Seq (Str ''stylua'')
           (Seq (Opt (Group (Seq (Str ''-'') (PlusClass version_class)))) T))
           (''stylua-'' @ ver @ rest) \<noteq> []"
proof -
  have "rest \<in> set (class_plus (cls_matches version_class) (ver @ rest))"
    using assms(1,2) by (intro class_plus_run) (auto simp: version_text_def list_all_iff)
  then have "rest \<in> set (rmatch (Opt (Group (Seq (Str ''-'') (PlusClass version_class))))
                 (''-'' @ ver @ rest))"
    by simp
  then have "rmatch (Seq (Opt (Group (Seq (Str ''-'') (PlusClass version_class)))) T)
               (''-'' @ ver @ rest) \<noteq> []"
    using assms(3) by (rule rmatch_Seq_intro)
  then show ?thesis by simp
qed

lemma pattern_accepts:
  assumes "supported_platform p" "f \<in> set (platform_fragments p)"
    and "ver \<noteq> []" "version_text ver"
  shows "\<exists>r. getAssetFilenamePatternForPlatform p a = Inr r \<and>
             test r (artifact_name ver f (architecture_fragment a))"
proof -
  let ?A = "architecture_fragment a"
  let ?tail = "''-'' @ f @ ''-'' @ ?A @ ''.zip''"
  obtain P where P: "getAssetFilenamePatternForPlatform p a =
      Inr (Seq (Str ''stylua'')
          (Seq (Opt (Group (Seq (Str ''-'') (PlusClass version_class))))
          (Seq (Str ''-'') (Seq P (Seq (Opt (Group (Seq (Str ''-'') (Str ?A))))
          (Seq Dot (Str ''zip'')))))))"
    and f: "rmatch P (f @ ''-'' @ ?A @ ''.zip'') = [''-'' @ ?A @ ''.zip'']"
    using assms(1,2)
    by (auto simp: getAssetFilenamePatternForPlatform_def supported_platform_def
        platform_fragments_def architecture_fragment_def)
  have "rmatch (Seq (Str ''-'') (Seq P (Seq (Opt (Group (Seq (Str ''-'') (Str ?A))))
          (Seq Dot (Str ''zip''))))) ?tail \<noteq> []"
    using f by (simp add: is_line_terminator_def)
  from version_prefix_accepts [OF assms(3,4) this]
  have "test (Seq (Str ''stylua'')
          (Seq (Opt (Group (Seq (Str ''-'') (PlusClass version_class))))
          (Seq (Str ''-'') (Seq P (Seq (Opt (Group (Seq (Str ''-'') (Str ?A))))
          (Seq Dot (Str ''zip''))))))) (artifact_name ver f ?A)"
    unfolding artifact_name_def by (rule test_start)
  then show ?thesis unfolding P by blast
qed


lemma pattern_accepts_legacy:
  assumes "supported_platform p" "f \<in> set (platform_fragments p)"
    and "ver \<noteq> []" "version_text ver"
  shows "\<exists>r. getAssetFilenamePatternForPlatform p a = Inr r \<and> test r (legacy_name ver f)"
proof -
  let ?A = "architecture_fragment a"
  let ?tail = "''-'' @ f @ ''.zip''"
  obtain P where P: "getAssetFilenamePatternForPlatform p a =
      Inr (Seq (Str ''stylua'')
          (Seq (Opt (Group (Seq (Str ''-'') (PlusClass version_class))))
          (Seq (Str ''-'') (Seq P (Seq (Opt (Group (Seq (Str ''-'') (Str ?A))))
          (Seq Dot (Str ''zip'')))))))"
    and f: "rmatch P (f @ ''.zip'') = [''.zip'']"
    using assms(1,2)
    by (auto simp: getAssetFilenamePatternForPlatform_def supported_platform_def
        platform_fragments_def architecture_fragment_def)
  have "rmatch (Seq (Str ''-'') (Seq P (Seq (Opt (Group (Seq (Str ''-'') (Str ?A))))
          (Seq Dot (Str ''zip''))))) ?tail \<noteq> []"
    using f by (simp add: is_line_terminator_def)
  from version_prefix_accepts [OF assms(3,4) this]
  have "test (Seq (Str ''stylua'')
          (Seq (Opt (Group (Seq (Str ''-'') (PlusClass version_class))))
          (Seq (Str ''-'') (Seq P (Seq (Opt (Group (Seq (Str ''-'') (Str ?A))))
          (Seq Dot (Str ''zip''))))))) (legacy_name ver f)"
    unfolding legacy_name_def by (rule test_start)
  then show ?thesis unfolding P by blast
qed

lemma has_pair_sandwich:
  assumes "d \<notin> set ver" "\<not> has_pair c d pre" "\<not> has_pair c d rest" "rest \<noteq> []" "hd rest \<noteq> d"
  shows "\<not> has_pair c d (pre @ ver @ rest)"
proof -
  have "hd (ver @ rest) \<noteq> d"
    using assms(1,5) by (cases ver) auto
  moreover have "\<not> has_pair c d (ver @ rest)"
    using assms(1,3,5) by (simp add: has_pair_append has_pair_absent)
  ultimately show ?thesis
    using assms(2) by (simp add: has_pair_append)
qed

lemma version_text_chars: "version_text ver \<Longrightarrow> c \<in> set ver \<Longrightarrow> c \<in> set ''0123456789w-.''"
  by (auto simp: version_text_def list_all_iff cls_matches_def version_class_def)

lemma fragment_needed:
  assumes "rmatch (Seq (Str ''-'') (Seq P R)) u \<noteq> []"
  shows "\<exists>v. u = CHR ''-'' # v \<and> rmatch P v \<noteq> []"
  using assms by (cases u) (auto split: if_splits)

lemma pattern_needs_pair:
  assumes "getAssetFilenamePatternForPlatform p a = Inr r" "test r s"
  shows "(p = ''win32'' \<and> has_pair (CHR ''w'') (CHR ''i'') s) \<or>
         (p = ''linux'' \<and> has_pair (CHR ''-'') (CHR ''l'') s) \<or>
         (p = ''darwin'' \<and> has_pair (CHR ''-'') (CHR ''m'') s)"
proof -
  let ?A = "if a = ''arm64'' then ''aarch64'' else if a = ''x64'' then ''x86_64'' else []"
  let ?R = "Seq (Opt (Group (Seq (Str ''-'') (Str ?A)))) (Seq Dot (Str ''zip''))"
  obtain P where r: "r = Seq (Str ''stylua'')
          (Seq (Opt (Group (Seq (Str ''-'') (PlusClass version_class))))
          (Seq (Str ''-'') (Seq P ?R)))"
    and P: "(p = ''win32'' \<and> P = Group (Alt (Str ''windows'') (Str ''win64''))) \<or>
            (p = ''linux'' \<and> P = Str ''linux'') \<or> (p = ''darwin'' \<and> P = Str ''macos'')"
    using assms(1)
    by (auto simp: getAssetFilenamePatternForPlatform_def Let_def split: if_splits)
  from assms(2) obtain u where u: "suffix u s" "rmatch (Seq (Str ''-'') (Seq P ?R)) u \<noteq> []"
    unfolding r by (rule test_reaches_platform)
  from fragment_needed [OF u(2)] obtain v where v: "u = CHR ''-'' # v" "rmatch P v \<noteq> []"
    by blast
  from P show ?thesis
  proof (elim disjE conjE)
    assume "p = ''win32''" "P = Group (Alt (Str ''windows'') (Str ''win64''))"
    with v(2) have "prefix ''wi'' v"
      by (auto simp: prefix_def split: if_splits)
    then have "has_pair (CHR ''w'') (CHR ''i'') u"
      unfolding v(1) by (auto simp: prefix_def)
    with u(1) \<open>p = ''win32''\<close> show ?thesis by (auto intro: has_pair_suffix)
  next
    assume "p = ''linux''" "P = Str ''linux''"
    with v(2) have "prefix ''l'' v"
      by (auto simp: prefix_def split: if_splits)
    then have "has_pair (CHR ''-'') (CHR ''l'') u"
      unfolding v(1) by (auto simp: prefix_def)
    with u(1) \<open>p = ''linux''\<close> show ?thesis by (auto intro: has_pair_suffix)
  next
    assume "p = ''darwin''" "P = Str ''macos''"
    with v(2) have "prefix ''m'' v"
      by (auto simp: prefix_def split: if_splits)
    then have "has_pair (CHR ''-'') (CHR ''m'') u"
      unfolding v(1) by (auto simp: prefix_def)
    with u(1) \<open>p = ''darwin''\<close> show ?thesis by (auto intro: has_pair_suffix)
  qed
qed

lemma foreign_tails:
  "\<forall>f\<in>set all_platform_fragments. \<forall>a'\<in>set all_architecture_fragments.
     (f \<notin> set (platform_fragments ''win32'') \<longrightarrow>
        \<not> has_pair (CHR ''w'') (CHR ''i'') (''-'' @ f @ ''-'' @ a' @ ''.zip'')) \<and>
     (f \<notin> set (platform_fragments ''linux'') \<longrightarrow>
        \<not> has_pair (CHR ''-'') (CHR ''l'') (''-'' @ f @ ''-'' @ a' @ ''.zip'')) \<and>
     (f \<notin> set (platform_fragments ''darwin'') \<longrightarrow>
        \<not> has_pair (CHR ''-'') (CHR ''m'') (''-'' @ f @ ''-'' @ a' @ ''.zip''))"
  by (simp add: all_platform_fragments_def all_architecture_fragments_def platform_fragments_def)

lemma foreign_name_pair_free:
  assumes "version_text ver" "f \<in> set all_platform_fragments" "a' \<in> set all_architecture_fragments"
  shows "f \<notin> set (platform_fragments ''win32'') \<Longrightarrow>
            \<not> has_pair (CHR ''w'') (CHR ''i'') (artifact_name ver f a')"
    and "f \<notin> set (platform_fragments ''linux'') \<Longrightarrow>
            \<not> has_pair (CHR ''-'') (CHR ''l'') (artifact_name ver f a')"
    and "f \<notin> set (platform_fragments ''darwin'') \<Longrightarrow>
            \<not> has_pair (CHR ''-'') (CHR ''m'') (artifact_name ver f a')"
proof -
  have i: "CHR ''i'' \<notin> set ver" and l: "CHR ''l'' \<notin> set ver" and m: "CHR ''m'' \<notin> set ver"
    using version_text_chars [OF assms(1)] by auto
  note t = foreign_tails [rule_format, OF assms(2,3)]
  show "f \<notin> set (platform_fragments ''win32'') \<Longrightarrow>
            \<not> has_pair (CHR ''w'') (CHR ''i'') (artifact_name ver f a')"
    unfolding artifact_name_def using t by (intro has_pair_sandwich [OF i]) simp_all
  show "f \<notin> set (platform_fragments ''linux'') \<Longrightarrow>
            \<not> has_pair (CHR ''-'') (CHR ''l'') (artifact_name ver f a')"
    unfolding artifact_name_def using t by (intro has_pair_sandwich [OF l]) simp_all
  show "f \<notin> set (platform_fragments ''darwin'') \<Longrightarrow>
            \<not> has_pair (CHR ''-'') (CHR ''m'') (artifact_name ver f a')"
    unfolding artifact_name_def using t by (intro has_pair_sandwich [OF m]) simp_all
qed

lemma pattern_rejects:
  assumes "getAssetFilenamePatternForPlatform p a = Inr r"
    and "version_text ver" "f \<in> set all_platform_fragments" "f \<notin> set (platform_fragments p)"
    and "a' \<in> set all_architecture_fragments"
  shows "\<not> test r (artifact_name ver f a')"
  using pattern_needs_pair [OF assms(1)] foreign_name_pair_free [OF assms(2,3,5)] assms(4)
  by blast

lemma pattern_source:
  assumes "getAssetFilenamePatternForPlatform p a = Inr r"
  shows "regex_source r =
           ''stylua(-['' @ [backslash] @ ''dw'' @ [backslash] @ ''-'' @ [backslash] @ ''.]+)?-''
           @ platform_pattern_source p @ ''(-'' @ architecture_fragment a @ '')?.zip''"
  using assms
  by (auto simp: getAssetFilenamePatternForPlatform_def platform_pattern_source_def
      architecture_fragment_def version_class_def split: if_splits)

lemma pattern_unsupported:
  "\<not> supported_platform p \<Longrightarrow> getAssetFilenamePatternForPlatform p a = Inl BadPlatformError"
  by (simp add: supported_platform_def getAssetFilenamePatternForPlatform_def)

text \<open>
  C8.  For each of the platforms \<open>win32\<close>, \<open>linux\<close> and \<open>darwin\<close> and any architecture
  the pattern is built; it matches every name \<open>stylua-<ver>-<platform>-<arch>.zip\<close> made
  of a non-empty version text, a fragment of that platform and the fragment of that
  architecture (empty for an architecture other than \<open>arm64\<close> and \<open>x64\<close>), as well as
  the name without the architecture, and it matches no such name that carries the
  fragment of another platform.  For any other platform the function throws
  BadPlatformError.
\<close>

theorem asset_pattern_for_platform:
  "(supported_platform p \<longrightarrow>
      (\<exists>r. getAssetFilenamePatternForPlatform p a = Inr r \<and>
         (\<forall>ver f. ver \<noteq> [] \<and> version_text ver \<and> f \<in> set (platform_fragments p) \<longrightarrow>
              test r (artifact_name ver f (architecture_fragment a)) \<and>
              test r (legacy_name ver f)) \<and>
         (\<forall>ver f a'. version_text ver \<and> f \<in> set all_platform_fragments \<and>
              f \<notin> set (platform_fragments p) \<and> a' \<in> set all_architecture_fragments \<longrightarrow>
              \<not> test r (artifact_name ver f a')))) \<and>
   (\<not> supported_platform p \<longrightarrow>
      getAssetFilenamePatternForPlatform p a = Inl BadPlatformError)"
proof (intro conjI impI)
  assume s: "supported_platform p"
  then obtain r where r: "getAssetFilenamePatternForPlatform p a = Inr r"
    by (auto simp: supported_platform_def getAssetFilenamePatternForPlatform_def)
  have "test r (artifact_name ver f (architecture_fragment a)) \<and> test r (legacy_name ver f)"
    if "ver \<noteq> []" "version_text ver" "f \<in> set (platform_fragments p)" for ver f
    using pattern_accepts [OF s that(3,1,2), of a] pattern_accepts_legacy [OF s that(3,1,2), of a] r
    by simp
  moreover have "\<not> test r (artifact_name ver f a')"
    if "version_text ver" "f \<in> set all_platform_fragments" "f \<notin> set (platform_fragments p)"
      "a' \<in> set all_architecture_fragments" for ver f a'
    using pattern_rejects [OF r that] .
  ultimately show "\<exists>r. getAssetFilenamePatternForPlatform p a = Inr r \<and>
         (\<forall>ver f. ver \<noteq> [] \<and> version_text ver \<and> f \<in> set (platform_fragments p) \<longrightarrow>
              test r (artifact_name ver f (architecture_fragment a)) \<and>
              test r (legacy_name ver f)) \<and>
         (\<forall>ver f a'. version_text ver \<and> f \<in> set all_platform_fragments \<and>
              f \<notin> set (platform_fragments p) \<and> a' \<in> set all_architecture_fragments \<longrightarrow>
              \<not> test r (artifact_name ver f a'))"
    using r by blast
next
  assume "\<not> supported_platform p"
  then show "getAssetFilenamePatternForPlatform p a = Inl BadPlatformError"
    by (rule pattern_unsupported)
qed

theorem asset_pattern_for_platform_witness:
  "(\<exists>r. getAssetFilenamePatternForPlatform ''linux'' ''x64'' = Inr r \<and>
        test r ''stylua-2.1.0-linux-x86_64.zip'' \<and>
        test r ''stylua-2.1.0-linux.zip'' \<and>
        \<not> test r ''stylua-2.1.0-macos-x86_64.zip'' \<and>
        \<not> test r ''stylua-2.1.0-windows-x86_64.zip'') \<and>
   getAssetFilenamePatternForPlatform ''freebsd'' ''x64'' = Inl BadPlatformError"
proof -
  have s: "supported_platform ''linux''" "\<not> supported_platform ''freebsd''"
    by (simp_all add: supported_platform_def)
  have v: "''2.1.0'' \<noteq> []" "version_text ''2.1.0''"
    by (simp_all add: version_text_def cls_matches_def version_class_def)
  have f: "''linux'' \<in> set (platform_fragments ''linux'')"
    "''macos'' \<in> set all_platform_fragments" "''macos'' \<notin> set (platform_fragments ''linux'')"
    "''windows'' \<in> set all_platform_fragments" "''windows'' \<notin> set (platform_fragments ''linux'')"
    "''x86_64'' \<in> set all_architecture_fragments"
    by (simp_all add: platform_fragments_def all_platform_fragments_def
        all_architecture_fragments_def)
  have n: "artifact_name ''2.1.0'' ''linux'' (architecture_fragment ''x64'') =
             ''stylua-2.1.0-linux-x86_64.zip''"
    "legacy_name ''2.1.0'' ''linux'' = ''stylua-2.1.0-linux.zip''"
    "artifact_name ''2.1.0'' ''macos'' ''x86_64'' = ''stylua-2.1.0-macos-x86_64.zip''"
    "artifact_name ''2.1.0'' ''windows'' ''x86_64'' = ''stylua-2.1.0-windows-x86_64.zip''"
    by (simp_all add: artifact_name_def legacy_name_def architecture_fragment_def)
  from asset_pattern_for_platform [of "''linux''" "''x64''"] s(1)
  obtain r where r: "getAssetFilenamePatternForPlatform ''linux'' ''x64'' = Inr r"
    and acc: "\<And>ver f. ver \<noteq> [] \<Longrightarrow> version_text ver \<Longrightarrow> f \<in> set (platform_fragments ''linux'') \<Longrightarrow>
              test r (artifact_name ver f (architecture_fragment ''x64'')) \<and>
              test r (legacy_name ver f)"
    and rej: "\<And>ver f a'. version_text ver \<Longrightarrow> f \<in> set all_platform_fragments \<Longrightarrow>
              f \<notin> set (platform_fragments ''linux'') \<Longrightarrow> a' \<in> set all_architecture_fragments \<Longrightarrow>
              \<not> test r (artifact_name ver f a')"
    by blast
  from acc [OF v f(1)] rej [OF v(2) f(2,3,6)] rej [OF v(2) f(4,5,6)] r
  have "\<exists>r. getAssetFilenamePatternForPlatform ''linux'' ''x64'' = Inr r \<and>
        test r ''stylua-2.1.0-linux-x86_64.zip'' \<and>
        test r ''stylua-2.1.0-linux.zip'' \<and>
        \<not> test r ''stylua-2.1.0-macos-x86_64.zip'' \<and>
        \<not> test r ''stylua-2.1.0-windows-x86_64.zip''"
    unfolding n by blast
  moreover from asset_pattern_for_platform [of "''freebsd''" "''x64''"] s(2)
  have "getAssetFilenamePatternForPlatform ''freebsd'' ''x64'' = Inl BadPlatformError"
    by blast
  ultimately show ?thesis by blast
qed

section \<open>Release parsing\<close>

lemma releaseFromJson_not_object:
  "js_typeof j \<noteq> ''object'' \<Longrightarrow> releaseFromJson j = Inr \<lparr>assets = [], htmlUrl = [], tagName = []\<rparr>"
  by (simp add: releaseFromJson_def)

lemma getAllReleases_not_array:
  "fetchJson g RELEASES_URL (credential_token g) = Inr j \<Longrightarrow> \<forall>xs. j \<noteq> JArr xs \<Longrightarrow>
     getAllReleases g = Inr []"
  by (cases j) (simp_all add: getAllReleases_def)

lemma assetFromJson_not_null: "a \<noteq> JNull \<Longrightarrow> \<exists>r. assetFromJson a = Inr r"
  by (cases a) (simp_all add: assetFromJson_def)

lemma map_throwing_total: "\<forall>x\<in>set xs. \<exists>y. f x = Inr y \<Longrightarrow> \<exists>ys. map_throwing f xs = Inr ys"
  by (induction xs) auto

lemma releaseFromJson_not_null:
  assumes "j \<noteq> JNull" and "\<forall>xs. get_property j ''assets'' = Inr (Some (JArr xs)) \<longrightarrow> JNull \<notin> set xs"
  shows "\<exists>r. releaseFromJson j = Inr r"
proof (cases "js_typeof j = ''object''")
  case False
  then show ?thesis by (simp add: releaseFromJson_def)
next
  case True
  from assms(1) obtain a where a: "get_property j ''assets'' = Inr a"
    and h: "\<exists>x. get_property j ''html_url'' = Inr x" and t: "\<exists>x. get_property j ''tag_name'' = Inr x"
    by (cases j) auto
  have "\<exists>as. (case a of Some (JArr xs) \<Rightarrow> map_throwing assetFromJson xs | _ \<Rightarrow> Inr []) = Inr as"
  proof (cases a)
    case None
    then show ?thesis by simp
  next
    case (Some v)
    show ?thesis
    proof (cases v)
      case (JArr xs)
      with Some a assms(2) have "JNull \<notin> set xs" by simp
      then have "\<forall>x\<in>set xs. \<exists>y. assetFromJson x = Inr y"
        using assetFromJson_not_null by metis
      from map_throwing_total [OF this] show ?thesis
        using Some JArr by simp
    qed (simp_all add: Some)
  qed
  with a h t True show ?thesis
    by (auto simp: releaseFromJson_def)
qed

text \<open>
  C2.  Parsing does throw on some payloads: the guard \<open>typeof json !== "object"\<close> lets
  \<open>null\<close> through, and the next member access raises a TypeError; so does a \<open>null\<close>
  among the assets, and so does \<open>getAllReleases\<close> on a listing that holds a \<open>null\<close>.
\<close>

theorem releaseFromJson_null_throws:
  "releaseFromJson JNull = Inl TypeError \<and>
   releaseFromJson (JObj [(''tag_name'', JStr ''v2.1.0''), (''assets'', JArr [JNull])])
     = Inl TypeError \<and>
   getAllReleases (listing_github (JArr [JNull])) = Inl TypeError"
  by (simp add: releaseFromJson_def assetFromJson_def getAllReleases_def listing_github_def)

section \<open>Looking a release up by its version\<close>

lemma first_matching_release_find:
  "first_matching_release v releases =
     (case find (\<lambda>r. startsWith (tagName r) v) releases of
        Some r \<Rightarrow> Inr r | None \<Rightarrow> Inl NoReleaseFoundError)"
  by (induction releases) auto

text \<open>
  C7.  For a version other than \<open>latest\<close>, \<open>getRelease\<close> puts a \<open>v\<close> in front of the
  version unless it starts with one, returns the first release of \<open>getAllReleases\<close>
  whose tag starts with the result, and throws NoReleaseFoundError when there is none.
\<close>

theorem getRelease_scans_for_prefixed_tag:
  assumes "ver \<noteq> ''latest''" and "getAllReleases g = Inr releases"
  shows "\<exists>n. (startsWith ver ''v'' \<longrightarrow> n = ver) \<and> (\<not> startsWith ver ''v'' \<longrightarrow> n = ''v'' @ ver) \<and>
             startsWith n ''v'' \<and>
             getRelease g ver =
               (case find (\<lambda>r. startsWith (tagName r) n) releases of
                  Some r \<Rightarrow> Inr r
                | None \<Rightarrow> Inl NoReleaseFoundError)"
  using assms
  by (cases "startsWith ver ''v''")
     (simp_all add: getRelease_def first_matching_release_find startsWith_def)

theorem getRelease_scans_for_prefixed_tag_witness:
  "getRelease (listing_github (JArr [release_json ''v2.1.0'' [], release_json ''v2.0.1'' [],
       release_json ''v2.0.0'' []])) ''2.0''
     = Inr \<lparr>assets = [], htmlUrl = ''https://github.com/v2.0.1'', tagName = ''v2.0.1''\<rparr> \<and>
   getRelease (listing_github (JArr [release_json ''v2.1.0'' []])) ''v3''
     = Inl NoReleaseFoundError"
proof -
  have l: "''2.0'' \<noteq> ''latest''" "''v3'' \<noteq> ''latest''"
    by simp_all
  have a: "getAllReleases (listing_github (JArr [release_json ''v2.1.0'' [],
      release_json ''v2.0.1'' [], release_json ''v2.0.0'' []])) =
     Inr [\<lparr>assets = [], htmlUrl = ''https://github.com/v2.1.0'', tagName = ''v2.1.0''\<rparr>,
          \<lparr>assets = [], htmlUrl = ''https://github.com/v2.0.1'', tagName = ''v2.0.1''\<rparr>,
          \<lparr>assets = [], htmlUrl = ''https://github.com/v2.0.0'', tagName = ''v2.0.0''\<rparr>]"
    by (simp add: getAllReleases_def listing_github_def release_json_def releaseFromJson_def)
  have b: "getAllReleases (listing_github (JArr [release_json ''v2.1.0'' []])) =
     Inr [\<lparr>assets = [], htmlUrl = ''https://github.com/v2.1.0'', tagName = ''v2.1.0''\<rparr>]"
    by (simp add: getAllReleases_def listing_github_def release_json_def releaseFromJson_def)
  show ?thesis
    using getRelease_scans_for_prefixed_tag [OF l(1) a]
      getRelease_scans_for_prefixed_tag [OF l(2) b]
    by (simp add: startsWith_def)
qed

section \<open>Reading the version of a binary\<close>

lemma trim_end_append:
  "trim_end (pre @ s) = (if trim_end s = [] then trim_end pre else pre @ trim_end s)"
  by (simp add: trim_end_def dropWhile_append)

lemma version_of_prefixed_output:
  "slice_from (length ''stylua '') (js_trim (''stylua '' @ s)) = trim_end s"
proof -
  have "dropWhile is_whitespace (''stylua '' @ s) = ''stylua '' @ s"
    by (simp add: is_whitespace_def)
  moreover have "trim_end ''stylua '' = ''stylua''"
    by (simp add: trim_end_def is_whitespace_def)
  ultimately have "js_trim (''stylua '' @ s) =
      (if trim_end s = [] then ''stylua'' else ''stylua '' @ trim_end s)"
    unfolding js_trim_def by (simp only: trim_end_append)
  then show ?thesis
    by (simp add: slice_from_def)
qed

lemma trim_end_unchanged: "s = [] \<or> \<not> is_whitespace (last s) \<Longrightarrow> trim_end s = s"
  by (cases s rule: rev_cases) (auto simp: trim_end_def)


text \<open>
  C9.  When the binary prints \<open>stylua\<close>, a space and a version string \<open>s\<close> (a string
  that does not end in whitespace), the version read back is exactly \<open>s\<close>.  For any
  text \<open>s\<close> it is \<open>s\<close> without its trailing whitespace, because the output is trimmed
  before the prefix is cut off.
\<close>

theorem getStyluaVersion_strips_prefix:
  assumes "executeStylua w p = Inr (''stylua '' @ s)"
  shows "fst (getStyluaVersion w p) = Some (trim_end s) \<and>
         (s = [] \<or> \<not> is_whitespace (last s) \<longrightarrow> fst (getStyluaVersion w p) = Some s)"
  using assms version_of_prefixed_output [of s] trim_end_unchanged [of s]
  by (auto simp: getStyluaVersion_def Let_def)

theorem getStyluaVersion_strips_prefix_witness:
  "executeStylua (version_world ''stylua 1.2.3'') ''/usr/bin/stylua'' = Inr (''stylua '' @ ''1.2.3'') \<and>
   fst (getStyluaVersion (version_world ''stylua 1.2.3'') ''/usr/bin/stylua'') = Some ''1.2.3''"
proof -
  have e: "executeStylua (version_world ''stylua 1.2.3'') ''/usr/bin/stylua'' =
             Inr (''stylua '' @ ''1.2.3'')"
    by (simp add: executeStylua_def version_world_def offline_world_def)
  from getStyluaVersion_strips_prefix [OF e] e show ?thesis
    by (simp add: is_whitespace_def trim_end_def)
qed

text \<open>
  The binary ends its output with a line feed; the version read back is the version
  string before it.
\<close>

lemma getStyluaVersion_trailing_newline:
  "executeStylua (version_world (''stylua 2.1.0'' @ [CHR 0x0A])) ''/usr/bin/stylua''
     = Inr (''stylua '' @ (''2.1.0'' @ [CHR 0x0A])) \<and>
   fst (getStyluaVersion (version_world (''stylua 2.1.0'' @ [CHR 0x0A])) ''/usr/bin/stylua'')
     = Some ''2.1.0'' \<and>
   ''2.1.0'' \<noteq> ''2.1.0'' @ [CHR 0x0A]"
  by (simp add: executeStylua_def getStyluaVersion_def version_world_def offline_world_def
      js_trim_def trim_end_def is_whitespace_def slice_from_def emit_def)

section \<open>Acquisition\<close>

lemma for_assets_no_match:
  "\<forall>a\<in>set as. \<not> test pat (name a) \<Longrightarrow> for_assets w pat out as = (Returned (), w)"
  by (induction as) auto

lemma output_filename_of_pattern:
  "getAssetFilenamePattern platform arch = Inr pat \<Longrightarrow> \<exists>f. getDownloadOutputFilename platform = Inr f"
  by (auto simp: getAssetFilenamePattern_def getAssetFilenamePatternForPlatform_def
      getDownloadOutputFilename_def split: if_splits)

text \<open>
  C10.  When no asset name of the release matches the pattern, \<open>downloadStylua\<close>
  returns: its promise resolves, and the environment (the files with it) is as it was.
\<close>

theorem downloadStylua_no_matching_asset:
  assumes "getRelease (github w) ver = Inr release"
    and "getAssetFilenamePattern (os_platform w) (process_arch w) = Inr pat"
    and "\<forall>a\<in>set (assets release). \<not> test pat (name a)"
  shows "downloadStylua w ver = (Returned (), w)"
proof -
  from output_filename_of_pattern [OF assms(2)]
  obtain f where "getDownloadOutputFilename (os_platform w) = Inr f" ..
  with assms(1,2) for_assets_no_match [OF assms(3)] show ?thesis
    by (simp add: downloadStylua_def)
qed

theorem downloadStylua_no_matching_asset_witness:
  "downloadStylua (download_world [''stylua-2.1.0-macos-x86_64.zip''] FetchFailed) ''latest'' =
     (Returned (), download_world [''stylua-2.1.0-macos-x86_64.zip''] FetchFailed)"
proof -
  let ?w = "download_world [''stylua-2.1.0-macos-x86_64.zip''] FetchFailed"
  let ?release = "\<lparr>assets = [\<lparr>downloadUrl = ''https://github.com/stylua-2.1.0-macos-x86_64.zip'',
                                name = ''stylua-2.1.0-macos-x86_64.zip''\<rparr>],
                   htmlUrl = ''https://github.com/v2.1.0'', tagName = ''v2.1.0''\<rparr>"
  let ?pat = "Seq (Str ''stylua'')
         (Seq (Opt (Group (Seq (Str ''-'') (PlusClass version_class))))
         (Seq (Str ''-'') (Seq (Str ''linux'')
         (Seq (Opt (Group (Seq (Str ''-'') (Str ''x86_64'')))) (Seq Dot (Str ''zip''))))))"
  have r: "getRelease (github ?w) ''latest'' = Inr ?release"
    by code_simp
  have p: "getAssetFilenamePattern (os_platform ?w) (process_arch ?w) = Inr ?pat"
    by code_simp
  have n: "\<forall>a\<in>set (assets ?release). \<not> test ?pat (name a)"
    by code_simp
  from downloadStylua_no_matching_asset [OF r p n] show ?thesis .
qed

text \<open>
  C1.  No failure is raised in that case: on a release whose only asset is
  \<open>README.md\<close>, \<open>downloadStylua\<close> resolves and leaves the storage path empty, where a
  failure NoMatchingAsset is asked for.
\<close>

theorem downloadStylua_unmatched_release_resolves:
  "fst (downloadStylua (download_world [''README.md''] FetchFailed) ''latest'') = Returned () \<and>
   files (snd (downloadStylua (download_world [''README.md''] FetchFailed) ''latest''))
     ''/storage/stylua'' = None"
  by code_simp










section \<open>Resolution with a configured path\<close>

lemma executeStylua_emit: "executeStylua (emit e w) p = executeStylua w p"
  by (simp add: executeStylua_def emit_def split: option.split)

lemma version_after_emit: "fst (getStyluaVersion (emit e w) p) = fst (getStyluaVersion w p)"
  by (simp add: getStyluaVersion_def executeStylua_emit Let_def split: sum.split)

lemma getStyluaVersion_world:
  "snd (getStyluaVersion w p) = emit (Exec p) w"
  by (simp add: getStyluaVersion_def Let_def split: sum.split)

lemma findStylua_configured:
  assumes "styluaPath w = Some p" "p \<noteq> []"
  shows "findStylua w =
    (Inr \<lparr>paths = (p, case truthy_value (styluaRoactPath w) of Some r \<Rightarrow> r | None \<Rightarrow> p),
          resolveMode = Configuration, version = None\<rparr>,
     emit (OutputInfo (case truthy_value (styluaRoactPath w) of
             Some r \<Rightarrow> ''Both Stylua paths explicitly configured: '' @ p @ '' & '' @ r
           | None \<Rightarrow> ''Stylua path explicitly configured: '' @ p)) w)"
  using assms by (simp add: findStylua_def split: option.split)

lemma ensure_pass_configured:
  assumes "styluaPath w = Some p" "p \<noteq> []"
    and q_def: "q = select_path ty (p, case truthy_value (styluaRoactPath w) of Some r \<Rightarrow> r | None \<Rightarrow> p)"
  shows "\<exists>msg. ensure_pass lib w ty =
    (if fileExists w q
     then (Done (Returned (Some
             \<lparr>paths = (p, case truthy_value (styluaRoactPath w) of Some r \<Rightarrow> r | None \<Rightarrow> p),
              resolveMode = Configuration, version = fst (getStyluaVersion w q)\<rparr>)),
           emit (Exec q) (emit (OutputInfo msg) w))
     else (Done (Returned None),
           emit (ShowErrorMessage (''The path given for StyLua ('' @ q @ '') does not exist''))
             (emit (OutputInfo msg) w)))"
proof -
  let ?msg = "case truthy_value (styluaRoactPath w) of
             Some r \<Rightarrow> ''Both Stylua paths explicitly configured: '' @ p @ '' & '' @ r
           | None \<Rightarrow> ''Stylua path explicitly configured: '' @ p"
  have e: "fileExists (emit (OutputInfo ?msg) w) q = fileExists w q"
    by (simp add: fileExists_def emit_def)
  have g: "getStyluaVersion (emit (OutputInfo ?msg) w) q =
      (fst (getStyluaVersion w q), emit (Exec q) (emit (OutputInfo ?msg) w))"
    using version_after_emit [of "OutputInfo ?msg" w q]
      getStyluaVersion_world [of "emit (OutputInfo ?msg) w" q]
    by (metis prod.collapse)
  show ?thesis
    by (rule exI [of _ ?msg])
       (simp add: ensure_pass_def findStylua_configured [OF assms(1,2)] Let_def e g
          q_def [symmetric] del: select_path.simps)
qed

text \<open>
  C3.  When \<open>stylua.styluaPath\<close> is set and not empty, \<open>findStylua\<close> resolves in the
  mode Configuration, to that path for both variants, or to the configured
  \<open>styluaRoactPath\<close> for the second; \<open>ensureStyluaExists\<close> returns that result with the
  version of the binary, or nothing when the file is not there; and neither of them
  looks the search path up, creates the storage directory or starts a download,
  whatever the other settings are.
\<close>

theorem configured_path_wins:
  assumes "styluaPath w = Some p" and "p \<noteq> []"
  shows "fst (findStylua w) =
           Inr \<lparr>paths = (p, case truthy_value (styluaRoactPath w) of Some r \<Rightarrow> r | None \<Rightarrow> p),
                resolveMode = Configuration, version = None\<rparr> \<and>
         fst (ensureStyluaExists lib w ty) =
           (if fileExists w (select_path ty
                 (p, case truthy_value (styluaRoactPath w) of Some r \<Rightarrow> r | None \<Rightarrow> p))
            then Returned (Some
               \<lparr>paths = (p, case truthy_value (styluaRoactPath w) of Some r \<Rightarrow> r | None \<Rightarrow> p),
                resolveMode = Configuration,
                version = fst (getStyluaVersion w (select_path ty
                  (p, case truthy_value (styluaRoactPath w) of Some r \<Rightarrow> r | None \<Rightarrow> p)))\<rparr>)
            else Returned None) \<and>
         list_all (\<lambda>e. \<not> search_or_download e) (new_events w (snd (findStylua w))) \<and>
         list_all (\<lambda>e. \<not> search_or_download e) (new_events w (snd (ensureStyluaExists lib w ty))) \<and>
         files (snd (ensureStyluaExists lib w ty)) = files w"
proof -
  from ensure_pass_configured [OF assms refl, of lib ty] obtain msg where
    "ensure_pass lib w ty =
    (if fileExists w (select_path ty
          (p, case truthy_value (styluaRoactPath w) of Some r \<Rightarrow> r | None \<Rightarrow> p))
     then (Done (Returned (Some
             \<lparr>paths = (p, case truthy_value (styluaRoactPath w) of Some r \<Rightarrow> r | None \<Rightarrow> p),
              resolveMode = Configuration,
              version = fst (getStyluaVersion w (select_path ty
                 (p, case truthy_value (styluaRoactPath w) of Some r \<Rightarrow> r | None \<Rightarrow> p)))\<rparr>)),
           emit (Exec (select_path ty
              (p, case truthy_value (styluaRoactPath w) of Some r \<Rightarrow> r | None \<Rightarrow> p)))
             (emit (OutputInfo msg) w))
     else (Done (Returned None),
           emit (ShowErrorMessage (''The path given for StyLua ('' @ select_path ty
              (p, case truthy_value (styluaRoactPath w) of Some r \<Rightarrow> r | None \<Rightarrow> p)
               @ '') does not exist''))
             (emit (OutputInfo msg) w)))"
    by blast
  then show ?thesis
    by (simp add: ensureStyluaExists.simps [of lib w ty] findStylua_configured [OF assms]
        new_events_def emit_def del: select_path.simps)
qed

theorem configured_path_wins_witness:
  "fst (findStylua configured_world) =
     Inr \<lparr>paths = (''/opt/stylua'', ''/opt/stylua''), resolveMode = Configuration,
          version = None\<rparr> \<and>
   fst (ensureStyluaExists plain_semver configured_world React) =
     Returned (Some \<lparr>paths = (''/opt/stylua'', ''/opt/stylua''), resolveMode = Configuration,
                     version = Some ''1.9.0''\<rparr>) \<and>
   list_all (\<lambda>e. \<not> search_or_download e)
     (new_events configured_world (snd (ensureStyluaExists plain_semver configured_world React))) \<and>
   files (snd (ensureStyluaExists plain_semver configured_world React)) = files configured_world"
proof -
  have p: "styluaPath configured_world = Some ''/opt/stylua''" "''/opt/stylua'' \<noteq> []"
    by code_simp+
  have a: "truthy_value (styluaRoactPath configured_world) = None"
    by code_simp
  have b: "fileExists configured_world (select_path React (''/opt/stylua'', ''/opt/stylua''))"
    by code_simp
  have c: "fst (getStyluaVersion configured_world
             (select_path React (''/opt/stylua'', ''/opt/stylua''))) = Some ''1.9.0''"
    by code_simp
  from configured_path_wins [OF p, of plain_semver React] show ?thesis
    unfolding a using b c by simp
qed

section \<open>Reconciling the versions\<close>

lemma evolves_refl: "evolves w w []"
  unfolding evolves_def by (intro exI [of _ "files w"] exI [of _ "directories w"] exI [of _ "github w"]) simp

lemma evolves_emit: "evolves w (emit e w) [e]"
  unfolding evolves_def emit_def by (intro exI [of _ "files w"] exI [of _ "directories w"] exI [of _ "github w"]) simp

lemma evolves_trans:
  assumes "evolves w w1 es1" "evolves w1 w2 es2"
  shows "evolves w w2 (es1 @ es2)"
proof -
  from assms obtain fs ds g fs' ds' g' where
    "w1 = w\<lparr>files := fs, directories := ds, github := g, events := events w @ es1\<rparr>"
    "w2 = w1\<lparr>files := fs', directories := ds', github := g', events := events w1 @ es2\<rparr>"
    unfolding evolves_def by blast
  then have "w2 = w\<lparr>files := fs', directories := ds', github := g',
                   events := events w @ es1 @ es2\<rparr>"
    by simp
  then show ?thesis
    unfolding evolves_def by blast
qed

lemma evolves_files: "evolves w (w\<lparr>files := fs\<rparr>) []"
  unfolding evolves_def by (intro exI [of _ fs] exI [of _ "directories w"] exI [of _ "github w"]) simp

lemma evolves_github: "evolves w (w\<lparr>github := g\<rparr>) []"
  unfolding evolves_def by (intro exI [of _ "files w"] exI [of _ "directories w"] exI [of _ g]) simp

lemma evolves_new_events: "evolves w w' es \<Longrightarrow> new_events w w' = es"
  unfolding evolves_def new_events_def by auto

lemma evolves_getDesiredVersion: "evolves w w' es \<Longrightarrow> getDesiredVersion w' = getDesiredVersion w"
  unfolding evolves_def by (auto simp: getDesiredVersion_def Let_def)

lemma evolves_disableVersionCheck:
  "evolves w w' es \<Longrightarrow> disableVersionCheck w' = disableVersionCheck w"
  unfolding evolves_def by auto

lemma evolves_getStyluaVersion: "getStyluaVersion w p = (v, w') \<Longrightarrow> evolves w w' [Exec p]"
  using getStyluaVersion_world [of w p] evolves_emit [of w "Exec p"] by simp

lemma evolves_bundledStylua:
  "bundledStylua w = (r, w') \<Longrightarrow> \<exists>es. evolves w w' es \<and> list_all quiet es"
  by (auto simp: bundledStylua_def Let_def split: sum.splits
      intro!: exI [of _ "[OutputInfo ''Falling back to bundled StyLua version'']"] evolves_emit)


lemma evolves_findStylua:
  assumes "findStylua w = (r, w')"
  shows "\<exists>es. evolves w w' es \<and> list_all quiet es"
proof (cases "truthy_value (styluaPath w)")
  case (Some p)
  with assms show ?thesis
    by (auto simp: findStylua_def split: option.splits
        intro!: exI [of _ "[OutputInfo m]" for m] evolves_emit)
next
  case None
  show ?thesis
  proof (cases "searchBinaryInPATH w")
    case False
    with None assms show ?thesis
      by (simp add: findStylua_def evolves_bundledStylua)
  next
    case True
    let ?w1 = "emit WhichLookup (emit (OutputInfo ''Searching for stylua on PATH'') w)"
    have w1: "evolves w ?w1 [OutputInfo ''Searching for stylua on PATH'', WhichLookup]"
      using evolves_trans [OF evolves_emit evolves_emit] by simp
    show ?thesis
    proof (cases "truthy_value (which_stylua ?w1)")
      case n: None
      with None True assms have "bundledStylua ?w1 = (r, w')"
        by (simp add: findStylua_def Let_def)
      from evolves_bundledStylua [OF this] obtain es where "evolves ?w1 w' es" "list_all quiet es"
        by blast
      with evolves_trans [OF w1] show ?thesis
        by (intro exI [of _ "[OutputInfo ''Searching for stylua on PATH'', WhichLookup] @ es"])
           simp
    next
      case s: (Some resolvedPath)
      let ?w2 = "emit (OutputInfo (''Stylua found on PATH: '' @ resolvedPath)) ?w1"
      obtain v w3 where g: "getStyluaVersion ?w2 resolvedPath = (v, w3)"
        by (cases "getStyluaVersion ?w2 resolvedPath")
      let ?es3 = "[OutputInfo ''Searching for stylua on PATH'', WhichLookup,
                   OutputInfo (''Stylua found on PATH: '' @ resolvedPath), Exec resolvedPath]"
      have w3: "evolves w w3 ?es3"
        using evolves_trans [OF evolves_trans [OF w1 evolves_emit] evolves_getStyluaVersion [OF g]]
        by simp
      show ?thesis
      proof (cases "truthy v")
        case t: True
        with None True s g assms have "w' = w3"
          by (simp add: findStylua_def Let_def)
        with w3 show ?thesis
          by (intro exI [of _ ?es3]) simp
      next
        case f: False
        let ?w4 = "emit (OutputError ''Stylua binary found on PATH failed to execute'') w3"
        from None True s g f assms have "bundledStylua ?w4 = (r, w')"
          by (simp add: findStylua_def Let_def)
        from evolves_bundledStylua [OF this] obtain es where es: "evolves ?w4 w' es" "list_all quiet es"
          by blast
        from evolves_trans [OF evolves_trans [OF w3 evolves_emit] es(1)] es(2)
        show ?thesis
          by (intro exI [of _ "(?es3 @ [OutputError ''Stylua binary found on PATH failed to execute'']) @ es"])
             simp
      qed
    qed
  qed
qed

lemma evolves_pipe_to_file: "pipe_to_file w p b = (ok, w') \<Longrightarrow> evolves w w' []"
  by (auto simp: pipe_to_file_def Let_def evolves_files)

lemma evolves_on_entries: "on_entries w p out items = (r, w') \<Longrightarrow> evolves w w' []"
  by (induction w p out items rule: on_entries.induct)
     (auto split: if_splits prod.splits bool.splits dest: evolves_pipe_to_file
        simp: evolves_refl)

lemma evolves_createDirectory: "evolves w (createDirectory w d) [CreateDirectory d]"
  unfolding evolves_def createDirectory_def emit_def
  by (intro exI [of _ "files w"] exI [of _ "insert d (directories w)"] exI [of _ "github w"])
     simp

lemma evolves_createWriteStream: "createWriteStream w p = Some w1 \<Longrightarrow> evolves w w1 []"
  by (auto simp: createWriteStream_def evolves_files split: if_splits)

lemma evolves_download_asset:
  assumes "download_asset w out a = (r, w')"
  shows "evolves w w' []"
proof (cases "createWriteStream w (joinPath (storageDirectory w) out)")
  case None
  with assms show ?thesis
    by (simp add: download_asset_def Let_def evolves_refl)
next
  case (Some w1)
  from assms Some have "w' = w1 \<or> (\<exists>p items. on_entries w1 p out items = (r, w'))"
    by (auto simp: download_asset_def Let_def split: http_body.splits)
  then have "evolves w1 w' []"
    using evolves_on_entries evolves_refl by blast
  from evolves_trans [OF evolves_createWriteStream [OF Some] this] show ?thesis by simp
qed

lemma evolves_for_assets: "for_assets w pat out as = (r, w') \<Longrightarrow> evolves w w' []"
  by (induction as) (auto split: if_splits dest: evolves_download_asset simp: evolves_refl)

lemma evolves_downloadStylua: "downloadStylua w v = (r, w') \<Longrightarrow> evolves w w' []"
  by (auto simp: downloadStylua_def evolves_refl split: sum.splits dest: evolves_for_assets)

lemma evolves_downloadStyluaVisual:
  assumes "downloadStyluaVisual w v = (r, w')"
  shows "evolves w w' [WithProgress v]"
proof -
  from assms have "evolves (emit (WithProgress v) w) w' []"
    by (simp add: downloadStyluaVisual_def evolves_downloadStylua)
  from evolves_trans [OF evolves_emit this] show ?thesis by simp
qed

lemma check_requested_version_events:
  "evolves w (check_requested_version lib v w)
     (if \<exists>c. v = Some c \<and> mismatch lib (getDesiredVersion w) c
      then [IncorrectVersionPrompt (the v) (getDesiredVersion w)] else [])"
proof (cases "\<exists>c. v = Some c \<and> mismatch lib (getDesiredVersion w) c")
  case True
  then obtain c where "v = Some c" "mismatch lib (getDesiredVersion w) c"
    by blast
  then have "check_requested_version lib v w =
      emit (IncorrectVersionPrompt c (getDesiredVersion w)) w"
    by (auto simp: check_requested_version_def mismatch_def Let_def)
  with True \<open>v = Some c\<close> show ?thesis
    by (simp add: evolves_emit)
next
  case False
  then have "check_requested_version lib v w = w"
    by (cases v)
       (auto simp: check_requested_version_def mismatch_def Let_def split: option.splits)
  moreover have "(if \<exists>c. v = Some c \<and> mismatch lib (getDesiredVersion w) c
      then [IncorrectVersionPrompt (the v) (getDesiredVersion w)] else []) = []"
    using False by (rule if_not_P)
  ultimately show ?thesis
    by (simp only: evolves_refl)
qed

lemma evolves_authenticate:
  "authenticate w = (b, w') \<Longrightarrow> \<exists>es. evolves w w' es \<and> list_all quiet es"
  by (auto simp: authenticate_def Let_def split: session_result.splits
      intro: exI [of _ "[]"] exI [of _ "[ShowErrorMessage ''Failed to authenticate with GitHub'']"]
        evolves_github evolves_emit)


lemma quiet_no_prompt: "list_all quiet es \<Longrightarrow> IncorrectVersionPrompt c r \<notin> set es"
  by (auto simp: list_all_iff)

lemma quiet_no_update: "list_all quiet es \<Longrightarrow> ShowUpdateAvailable r \<notin> set es"
  by (auto simp: list_all_iff)

lemma check_latest_version_fetched:
  assumes "\<not> disableVersionCheck w" "getRelease (github w) ''latest'' = Inr rel"
  shows "check_latest_version v w =
    (False, emit (if v = Some (strip_v (tagName rel)) then StatusBarHide
                  else ShowUpdateAvailable rel) w)"
  using assms by (simp add: check_latest_version_def)

lemma check_latest_version_events:
  assumes "check_latest_version v w = (b, w')"
  shows "\<exists>es. evolves w w' es \<and> (\<forall>c r. IncorrectVersionPrompt c r \<notin> set es)"
proof (cases "disableVersionCheck w")
  case True
  with assms have "w' = emit StatusBarHide w"
    by (simp add: check_latest_version_def)
  then show ?thesis
    using evolves_emit [of w StatusBarHide] by (intro exI [of _ "[StatusBarHide]"]) simp
next
  case False
  show ?thesis
  proof (cases "getRelease (github w) ''latest''")
    case (Inr rel)
    let ?e = "if v = Some (strip_v (tagName rel)) then StatusBarHide else ShowUpdateAvailable rel"
    from check_latest_version_fetched [OF False Inr, of v] assms have "w' = emit ?e w"
      by simp
    then show ?thesis
      using evolves_emit [of w ?e] by (intro exI [of _ "[?e]"]) simp
  next
    case (Inl err)
    let ?w1 = "emit (ShowWarningMessage err) w"
    let ?w2 = "emit AuthenticationPrompt ?w1"
    have 1: "evolves w ?w1 [ShowWarningMessage err]"
      by (rule evolves_emit)
    have 2: "evolves w ?w2 [ShowWarningMessage err, AuthenticationPrompt]"
      using evolves_trans [OF 1 evolves_emit] by simp
    from assms False Inl have "w' = ?w1 \<or> w' = ?w2 \<or> (\<exists>b'. authenticate ?w2 = (b', w'))"
      by (auto simp: check_latest_version_def Let_def split: if_splits prod.splits bool.splits)
    then show ?thesis
    proof (elim disjE exE)
      assume "w' = ?w1"
      with 1 show ?thesis by (intro exI [of _ "[ShowWarningMessage err]"]) simp
    next
      assume "w' = ?w2"
      with 2 show ?thesis
        by (intro exI [of _ "[ShowWarningMessage err, AuthenticationPrompt]"]) simp
    next
      fix b' assume "authenticate ?w2 = (b', w')"
      from evolves_authenticate [OF this] obtain es where es: "evolves ?w2 w' es" "list_all quiet es"
        by blast
      from evolves_trans [OF 2 es(1)] quiet_no_prompt [OF es(2)] show ?thesis
        by (intro exI [of _ "[ShowWarningMessage err, AuthenticationPrompt] @ es"]) simp
    qed
  qed
qed

lemma ensure_pass_cases:
  assumes "ensure_pass lib w ty = (res, w')"
  shows "(\<exists>es. evolves w w' es \<and> list_all quiet es \<and> res \<noteq> Again \<and>
             (\<forall>x. res = Done (Returned (Some x)) \<longrightarrow> resolveMode x \<noteq> Bundled)) \<or>
         (\<exists>es v w3 b stylua. resolveMode stylua = Bundled \<and> evolves w w3 es \<and> list_all quiet es \<and>
             github w3 = github w \<and>
             check_latest_version v (check_requested_version lib v w3) = (b, w') \<and>
             res = (if b then Again else Done (Returned (Some (stylua\<lparr>version := v\<rparr>)))))"
proof -
  obtain fr w1 where f: "findStylua w = (fr, w1)"
    by (cases "findStylua w")
  from evolves_findStylua [OF f] obtain es1 where es1: "evolves w w1 es1" "list_all quiet es1"
    by blast
  have g1: "github w1 = github w"
    using f by (rule github_findStylua)
  show ?thesis
  proof (cases fr)
    case (Inl e)
    with assms f have "res = Done (Thrown e)" "w' = w1"
      by (simp_all add: ensure_pass_def)
    with es1 show ?thesis by auto
  next
    case (Inr stylua)
    let ?p = "select_path ty (paths stylua)"
    show ?thesis
    proof (cases "resolveMode stylua")
      case Path
      obtain v w2 where g: "getStyluaVersion w1 ?p = (v, w2)"
        by (cases "getStyluaVersion w1 ?p")
      with assms f Inr Path have r: "res = Done (Returned (Some (stylua\<lparr>version := v\<rparr>)))" "w' = w2"
        by (simp_all add: ensure_pass_def)
      from evolves_trans [OF es1(1) evolves_getStyluaVersion [OF g]] es1(2) r Path
      show ?thesis
        by (intro disjI1 exI [of _ "es1 @ [Exec ?p]"]) simp
    next
      case Configuration
      show ?thesis
      proof (cases "fileExists w1 ?p")
        case False
        let ?e = "ShowErrorMessage (''The path given for StyLua ('' @ ?p @ '') does not exist'')"
        from assms f Inr Configuration False have r: "res = Done (Returned None)" "w' = emit ?e w1"
          by (simp_all add: ensure_pass_def Let_def)
        from evolves_trans [OF es1(1) evolves_emit [of w1 ?e]] es1(2) r
        show ?thesis
          by (intro disjI1 exI [of _ "es1 @ [?e]"]) simp
      next
        case True
        obtain v w2 where g: "getStyluaVersion w1 ?p = (v, w2)"
          by (cases "getStyluaVersion w1 ?p")
        with assms f Inr Configuration True
        have r: "res = Done (Returned (Some (stylua\<lparr>version := v\<rparr>)))" "w' = w2"
          by (simp_all add: ensure_pass_def Let_def)
        from evolves_trans [OF es1(1) evolves_getStyluaVersion [OF g]] es1(2) r Configuration
        show ?thesis
          by (intro disjI1 exI [of _ "es1 @ [Exec ?p]"]) simp
      qed
    next
      case Bundled
      let ?acq = "if \<not> fileExists w1 ?p
                  then downloadStyluaVisual (createDirectory w1 (storageDirectory w1))
                         (getDesiredVersion w1)
                  else (Returned (), w1)"
      obtain c w2 where a: "?acq = (c, w2)"
        by (cases ?acq)
      have "\<exists>es2. evolves w1 w2 es2 \<and> list_all quiet es2 \<and> github w2 = github w1"
      proof (cases "fileExists w1 ?p")
        case True
        with a have "w2 = w1" by simp
        then show ?thesis
          using evolves_refl [of w1] by (intro exI [of _ "[]"]) simp
      next
        case False
        let ?w = "createDirectory w1 (storageDirectory w1)"
        from False a have d: "downloadStyluaVisual ?w (getDesiredVersion w1) = (c, w2)"
          by simp
        from evolves_trans [OF evolves_createDirectory evolves_downloadStyluaVisual [OF d]]
          github_downloadStyluaVisual [OF d]
        show ?thesis
          by (intro exI [of _ "[CreateDirectory (storageDirectory w1),
                WithProgress (getDesiredVersion w1)]"]) (simp add: github_createDirectory)
      qed
      then obtain es2 where es2: "evolves w1 w2 es2" "list_all quiet es2" "github w2 = github w1"
        by blast
      have e12: "evolves w w2 (es1 @ es2)"
        using es1(1) es2(1) by (rule evolves_trans)
      show ?thesis
      proof (cases c)
        case (Thrown e)
        with assms f Inr Bundled a have "res = Done (Thrown e)" "w' = w2"
          by (simp_all add: ensure_pass_def Let_def)
        with e12 es1(2) es2(2) show ?thesis
          by (intro disjI1 exI [of _ "es1 @ es2"]) simp
      next
        case NeverSettles
        with assms f Inr Bundled a have "res = Done NeverSettles" "w' = w2"
          by (simp_all add: ensure_pass_def Let_def)
        with e12 es1(2) es2(2) show ?thesis
          by (intro disjI1 exI [of _ "es1 @ es2"]) simp
      next
        case (Returned u)
        obtain v w3 where g: "getStyluaVersion w2 ?p = (v, w3)"
          by (cases "getStyluaVersion w2 ?p")
        obtain b w4 where k: "check_latest_version v (check_requested_version lib v w3) = (b, w4)"
          by (cases "check_latest_version v (check_requested_version lib v w3)")
        from assms f Inr Bundled a Returned g k
        have r: "w' = w4" "res = (if b then Again else Done (Returned (Some (stylua\<lparr>version := v\<rparr>))))"
          by (cases b; simp add: ensure_pass_def Let_def)+
        have "evolves w w3 ((es1 @ es2) @ [Exec ?p])"
          using e12 evolves_getStyluaVersion [OF g] by (rule evolves_trans)
        moreover have "github w3 = github w"
          using github_getStyluaVersion [OF g] es2(3) g1 by simp
        ultimately show ?thesis
          using es1(2) es2(2) k r Bundled
          by (intro disjI2 exI [of _ "(es1 @ es2) @ [Exec ?p]"] exI [of _ v] exI [of _ w3]
              exI [of _ b] exI [of _ stylua]) simp
      qed
    qed
  qed
qed



lemma ensure_pass_prompts:
  assumes "ensure_pass lib w ty = (res, w')"
  shows "\<exists>es. evolves w w' es \<and>
           (\<forall>c q. IncorrectVersionPrompt c q \<in> set es \<longrightarrow>
                    q = getDesiredVersion w \<and> mismatch lib q c) \<and>
           (\<forall>x c. res = Done (Returned (Some x)) \<and> resolveMode x = Bundled \<and>
                    version x = Some c \<and> mismatch lib (getDesiredVersion w) c \<longrightarrow>
                    IncorrectVersionPrompt c (getDesiredVersion w) \<in> set es)"
  using ensure_pass_cases [OF assms]
proof (elim disjE exE conjE)
  fix es
  assume "evolves w w' es" "list_all quiet es" "res \<noteq> Again"
    "\<forall>x. res = Done (Returned (Some x)) \<longrightarrow> resolveMode x \<noteq> Bundled"
  then show ?thesis
    using quiet_no_prompt by (intro exI [of _ es]) auto
next
  fix es v w3 b stylua
  assume m: "resolveMode stylua = Bundled" and e: "evolves w w3 es" and q: "list_all quiet es"
    and k: "check_latest_version v (check_requested_version lib v w3) = (b, w')"
    and r: "res = (if b then Again else Done (Returned (Some (stylua\<lparr>version := v\<rparr>))))"
  let ?d = "getDesiredVersion w"
  let ?esr = "if \<exists>c. v = Some c \<and> mismatch lib ?d c then [IncorrectVersionPrompt (the v) ?d] else []"
  have d: "getDesiredVersion w3 = ?d"
    using e by (rule evolves_getDesiredVersion)
  have er: "evolves w3 (check_requested_version lib v w3) ?esr"
    using check_requested_version_events [of w3 lib v] unfolding d .
  from check_latest_version_events [OF k] obtain esl where
    el: "evolves (check_requested_version lib v w3) w' esl"
    and nl: "\<forall>c q. IncorrectVersionPrompt c q \<notin> set esl"
    by blast
  have total: "evolves w w' (es @ ?esr @ esl)"
    using evolves_trans [OF e evolves_trans [OF er el]] .
  have "q' = ?d \<and> mismatch lib q' c" if "IncorrectVersionPrompt c q' \<in> set (es @ ?esr @ esl)" for c q'
  proof -
    from that quiet_no_prompt [OF q] nl have "IncorrectVersionPrompt c q' \<in> set ?esr"
      by auto
    then show ?thesis
      by (auto split: if_splits)
  qed
  moreover have "IncorrectVersionPrompt c ?d \<in> set (es @ ?esr @ esl)"
    if "res = Done (Returned (Some x))" "version x = Some c" "mismatch lib ?d c" for x c
  proof -
    from that(1) r have "x = stylua\<lparr>version := v\<rparr>"
      by (cases b) simp_all
    with that(2) have "v = Some c" by simp
    with that(3) show ?thesis by auto
  qed
  ultimately show ?thesis
    using total by (intro exI [of _ "es @ ?esr @ esl"]) blast
qed

lemma ensureStyluaExists_prompts:
  "ensureStyluaExists lib w ty = (r, w') \<Longrightarrow>
     \<exists>es. evolves w w' es \<and>
       (\<forall>c q. IncorrectVersionPrompt c q \<in> set es \<longrightarrow>
                q = getDesiredVersion w \<and> mismatch lib q c) \<and>
       (\<forall>x c. r = Returned (Some x) \<and> resolveMode x = Bundled \<and>
                version x = Some c \<and> mismatch lib (getDesiredVersion w) c \<longrightarrow>
                IncorrectVersionPrompt c (getDesiredVersion w) \<in> set es)"
proof (induction lib w ty arbitrary: r w' rule: ensureStyluaExists.induct)
  case (1 lib w styluaType)
  obtain res w1 where p: "ensure_pass lib w styluaType = (res, w1)"
    by (cases "ensure_pass lib w styluaType")
  from ensure_pass_prompts [OF p] obtain es1 where
    e1: "evolves w w1 es1"
    and n1: "\<forall>c q. IncorrectVersionPrompt c q \<in> set es1 \<longrightarrow>
                    q = getDesiredVersion w \<and> mismatch lib q c"
    and y1: "\<forall>x c. res = Done (Returned (Some x)) \<and> resolveMode x = Bundled \<and>
                    version x = Some c \<and> mismatch lib (getDesiredVersion w) c \<longrightarrow>
                    IncorrectVersionPrompt c (getDesiredVersion w) \<in> set es1"
    by blast
  show ?case
  proof (cases res)
    case (Done r1)
    with p "1.prems" have "r = r1" "w' = w1"
      by (simp_all add: ensureStyluaExists.simps [of lib w styluaType])
    with e1 n1 y1 Done show ?thesis
      by (intro exI [of _ es1]) simp
  next
    case Again
    with p "1.prems" have "ensureStyluaExists lib w1 Standard = (r, w')"
      by (simp add: ensureStyluaExists.simps [of lib w styluaType])
    from "1.IH" [OF p [symmetric] Again this] obtain es2 where
      e2: "evolves w1 w' es2"
      and n2: "\<forall>c q. IncorrectVersionPrompt c q \<in> set es2 \<longrightarrow>
                    q = getDesiredVersion w1 \<and> mismatch lib q c"
      and y2: "\<forall>x c. r = Returned (Some x) \<and> resolveMode x = Bundled \<and>
                    version x = Some c \<and> mismatch lib (getDesiredVersion w1) c \<longrightarrow>
                    IncorrectVersionPrompt c (getDesiredVersion w1) \<in> set es2"
      by blast
    have d: "getDesiredVersion w1 = getDesiredVersion w"
      using e1 by (rule evolves_getDesiredVersion)
    from evolves_trans [OF e1 e2] n1 n2 y2 show ?thesis
      unfolding d by (intro exI [of _ "es1 @ es2"]) auto
  qed
qed


text \<open>
  C5 (amended).  When the requested version is \<open>latest\<close>, no run raises the prompt.
  Otherwise, when the binary is resolved in the mode Bundled, the requested version
  coerces and the reported version parses, the prompt for the two is raised if and
  only if \<open>semver.neq\<close> holds of them.
\<close>

theorem version_mismatch_prompt:
  "(getDesiredVersion w = ''latest'' \<longrightarrow>
      (\<forall>c q. IncorrectVersionPrompt c q
         \<notin> set (new_events w (snd (ensureStyluaExists lib w ty))))) \<and>
   (getDesiredVersion w \<noteq> ''latest'' \<and>
    ensureStyluaExists lib w ty = (Returned (Some info), w') \<and>
    resolveMode info = Bundled \<and> version info = Some v \<and> v \<noteq> [] \<and>
    semver_coerce lib (getDesiredVersion w) = Some d \<and> semver_parse lib v = Some s \<longrightarrow>
      (IncorrectVersionPrompt v (getDesiredVersion w) \<in> set (new_events w w')
         \<longleftrightarrow> semver_neq lib d s))"
proof (intro conjI impI)
  assume l: "getDesiredVersion w = ''latest''"
  obtain r w1 where e: "ensureStyluaExists lib w ty = (r, w1)"
    by (cases "ensureStyluaExists lib w ty")
  from ensureStyluaExists_prompts [OF e] obtain es where
    "evolves w w1 es"
    "\<forall>c q. IncorrectVersionPrompt c q \<in> set es \<longrightarrow> q = getDesiredVersion w \<and> mismatch lib q c"
    by blast
  with l have "new_events w w1 = es" "\<forall>c q. IncorrectVersionPrompt c q \<notin> set es"
    by (auto simp: evolves_new_events mismatch_def)
  with e show "\<forall>c q. IncorrectVersionPrompt c q
         \<notin> set (new_events w (snd (ensureStyluaExists lib w ty)))"
    by simp
next
  assume a: "getDesiredVersion w \<noteq> ''latest'' \<and>
    ensureStyluaExists lib w ty = (Returned (Some info), w') \<and>
    resolveMode info = Bundled \<and> version info = Some v \<and> v \<noteq> [] \<and>
    semver_coerce lib (getDesiredVersion w) = Some d \<and> semver_parse lib v = Some s"
  then have e: "ensureStyluaExists lib w ty = (Returned (Some info), w')" by simp
  from ensureStyluaExists_prompts [OF e] obtain es where
    es: "evolves w w' es"
    and n: "\<forall>c q. IncorrectVersionPrompt c q \<in> set es \<longrightarrow> q = getDesiredVersion w \<and> mismatch lib q c"
    and y: "\<forall>x c. Returned (Some info) = Returned (Some x) \<and> resolveMode x = Bundled \<and>
                version x = Some c \<and> mismatch lib (getDesiredVersion w) c \<longrightarrow>
                IncorrectVersionPrompt c (getDesiredVersion w) \<in> set es"
    by blast
  have m: "mismatch lib (getDesiredVersion w) v \<longleftrightarrow> semver_neq lib d s"
    using a by (simp add: mismatch_def)
  have "IncorrectVersionPrompt v (getDesiredVersion w) \<in> set es \<longleftrightarrow> semver_neq lib d s"
    using n y a m by blast
  then show "IncorrectVersionPrompt v (getDesiredVersion w) \<in> set (new_events w w')
         \<longleftrightarrow> semver_neq lib d s"
    by (simp add: evolves_new_events [OF es])
qed

theorem version_mismatch_prompt_witness:
  "IncorrectVersionPrompt ''1.9.0'' ''1.2.0''
     \<in> set (new_events bundled_world (snd (ensureStyluaExists plain_semver bundled_world Standard))) \<and>
   (\<forall>c q. IncorrectVersionPrompt c q
      \<notin> set (new_events (bundled_world\<lparr>targetReleaseVersion := None\<rparr>)
           (snd (ensureStyluaExists plain_semver
                  (bundled_world\<lparr>targetReleaseVersion := None\<rparr>) Standard))))"
proof -
  let ?w = bundled_world
  let ?info = "\<lparr>paths = (''/storage/stylua'', ''/storage/stylua''), resolveMode = Bundled,
                version = Some ''1.9.0''\<rparr>"
  have d: "getDesiredVersion ?w = ''1.2.0''"
    by code_simp
  have l: "getDesiredVersion (?w\<lparr>targetReleaseVersion := None\<rparr>) = ''latest''"
    by code_simp
  have r: "fst (ensureStyluaExists plain_semver ?w Standard) = Returned (Some ?info)"
    by code_simp
  have e: "ensureStyluaExists plain_semver ?w Standard =
             (Returned (Some ?info), snd (ensureStyluaExists plain_semver ?w Standard))"
    using r by (metis prod.collapse)
  have c: "semver_coerce plain_semver ''1.2.0'' = Some (1, 2, 0)"
    "semver_parse plain_semver ''1.9.0'' = Some (1, 9, 0)"
    "semver_neq plain_semver (1, 2, 0) (1, 9, 0)"
    by code_simp+
  have "IncorrectVersionPrompt ''1.9.0'' ''1.2.0''
     \<in> set (new_events ?w (snd (ensureStyluaExists plain_semver ?w Standard)))"
    using version_mismatch_prompt [of ?w plain_semver Standard ?info
        "snd (ensureStyluaExists plain_semver ?w Standard)" "''1.9.0''" "(1, 2, 0)" "(1, 9, 0)"]
      e c unfolding d by simp
  moreover have "\<forall>c q. IncorrectVersionPrompt c q
      \<notin> set (new_events (?w\<lparr>targetReleaseVersion := None\<rparr>)
           (snd (ensureStyluaExists plain_semver (?w\<lparr>targetReleaseVersion := None\<rparr>) Standard)))"
    using version_mismatch_prompt [of "?w\<lparr>targetReleaseVersion := None\<rparr>" plain_semver Standard]
      l by blast
  ultimately show ?thesis by blast
qed

text \<open>
  C5 (counterexample).  Outside the mode Bundled the versions are not compared: with a
  configured path, a requested version 1.2.0 and a binary that reports 1.9.0, no
  prompt is raised.
\<close>

theorem configured_binary_is_not_compared:
  "getDesiredVersion configured_world = ''1.2.0'' \<and>
   semver_coerce plain_semver ''1.2.0'' = Some (1, 2, 0) \<and>
   semver_parse plain_semver ''1.9.0'' = Some (1, 9, 0) \<and>
   semver_neq plain_semver (1, 2, 0) (1, 9, 0) \<and>
   fst (ensureStyluaExists plain_semver configured_world Standard) =
     Returned (Some \<lparr>paths = (''/opt/stylua'', ''/opt/stylua''), resolveMode = Configuration,
                     version = Some ''1.9.0''\<rparr>) \<and>
   events (snd (ensureStyluaExists plain_semver configured_world Standard)) =
     [OutputInfo ''Stylua path explicitly configured: /opt/stylua'', Exec ''/opt/stylua'']"
  by code_simp


lemma quiet_no_hide: "list_all quiet es \<Longrightarrow> StatusBarHide \<notin> set es"
  by (auto simp: list_all_iff)

text \<open>
  C6 (amended).  When the binary is resolved in the mode Bundled, the version check
  is not disabled and the latest release is fetched, the status bar item is hidden
  and no update is announced if the reported version is the tag of that release
  without its leading \<open>v\<close>; otherwise the update is announced with that release.
\<close>

theorem update_available_signal:
  assumes "ensureStyluaExists lib w ty = (Returned (Some info), w')"
    and "resolveMode info = Bundled"
    and "\<not> disableVersionCheck w"
    and "getRelease (github w) ''latest'' = Inr latestRelease"
  shows "(version info = Some (strip_v (tagName latestRelease)) \<longrightarrow>
            (\<forall>rel. ShowUpdateAvailable rel \<notin> set (new_events w w')) \<and>
            StatusBarHide \<in> set (new_events w w')) \<and>
         (version info \<noteq> Some (strip_v (tagName latestRelease)) \<longrightarrow>
            ShowUpdateAvailable latestRelease \<in> set (new_events w w') \<and>
            StatusBarHide \<notin> set (new_events w w'))"
proof -
  obtain res w1 where p: "ensure_pass lib w ty = (res, w1)"
    by (cases "ensure_pass lib w ty")
  have first: "res \<noteq> Again \<Longrightarrow> res = Done (Returned (Some info)) \<and> w1 = w'"
    using p assms(1) by (cases res) (simp_all add: ensureStyluaExists.simps [of lib w ty])
  from ensure_pass_cases [OF p] show ?thesis
  proof (elim disjE exE conjE)
    fix es
    assume "res \<noteq> Again" "\<forall>x. res = Done (Returned (Some x)) \<longrightarrow> resolveMode x \<noteq> Bundled"
    with first assms(2) show ?thesis by blast
  next
    fix es v w3 b stylua
    assume e: "evolves w w3 es" and q: "list_all quiet es" and g: "github w3 = github w"
      and k: "check_latest_version v (check_requested_version lib v w3) = (b, w1)"
      and r: "res = (if b then Again else Done (Returned (Some (stylua\<lparr>version := v\<rparr>))))"
    let ?wr = "check_requested_version lib v w3"
    let ?esr = "if \<exists>c. v = Some c \<and> mismatch lib (getDesiredVersion w3) c
                then [IncorrectVersionPrompt (the v) (getDesiredVersion w3)] else []"
    let ?sig = "if v = Some (strip_v (tagName latestRelease)) then StatusBarHide
                else ShowUpdateAvailable latestRelease"
    have er: "evolves w3 ?wr ?esr"
      by (rule check_requested_version_events)
    have "\<not> disableVersionCheck ?wr"
      using assms(3) evolves_disableVersionCheck [OF e] evolves_disableVersionCheck [OF er]
      by simp
    moreover have "getRelease (github ?wr) ''latest'' = Inr latestRelease"
      using assms(4) g by (simp add: github_check_requested_version)
    ultimately have c: "check_latest_version v ?wr = (False, emit ?sig ?wr)"
      by (rule check_latest_version_fetched)
    with k r have b: "res = Done (Returned (Some (stylua\<lparr>version := v\<rparr>)))" "w1 = emit ?sig ?wr"
      by simp_all
    with first have i: "info = stylua\<lparr>version := v\<rparr>" "w' = emit ?sig ?wr"
      by simp_all
    have "evolves w w' (es @ ?esr @ [?sig])"
      unfolding i(2) using evolves_trans [OF e evolves_trans [OF er evolves_emit]] .
    then have n: "new_events w w' = es @ ?esr @ [?sig]"
      by (rule evolves_new_events)
    have v: "version info = v"
      using i(1) by simp
    show ?thesis
      unfolding n v using quiet_no_update [OF q] quiet_no_hide [OF q]
      by (auto split: if_splits)
  qed
qed

theorem update_available_signal_witness:
  "ShowUpdateAvailable \<lparr>assets = [], htmlUrl = ''https://github.com/v2.0.0'', tagName = ''v2.0.0''\<rparr>
     \<in> set (new_events bundled_world (snd (ensureStyluaExists plain_semver bundled_world Standard)))"
proof -
  let ?w = bundled_world
  let ?info = "\<lparr>paths = (''/storage/stylua'', ''/storage/stylua''), resolveMode = Bundled,
                version = Some ''1.9.0''\<rparr>"
  let ?rel = "\<lparr>assets = [], htmlUrl = ''https://github.com/v2.0.0'', tagName = ''v2.0.0''\<rparr>"
  have r: "fst (ensureStyluaExists plain_semver ?w Standard) = Returned (Some ?info)"
    by code_simp
  have e: "ensureStyluaExists plain_semver ?w Standard =
             (Returned (Some ?info), snd (ensureStyluaExists plain_semver ?w Standard))"
    using r by (metis prod.collapse)
  have m: "resolveMode ?info = Bundled"
    by simp
  have c: "\<not> disableVersionCheck ?w"
    by code_simp
  have l: "getRelease (github ?w) ''latest'' = Inr ?rel"
    by code_simp
  have n: "version ?info \<noteq> Some (strip_v (tagName ?rel))"
    by code_simp
  from update_available_signal [OF e m c l] n show ?thesis
    by blast
qed

text \<open>
  C6 (counterexample).  Outside the mode Bundled the latest release is not looked at:
  with a configured path, a binary that reports 1.9.0 and a latest release v2.0.0, no
  update is announced.
\<close>

theorem configured_binary_is_not_checked_for_updates:
  "disableVersionCheck configured_world = False \<and>
   getRelease (github configured_world) ''latest'' =
     Inr \<lparr>assets = [], htmlUrl = ''https://github.com/v2.0.0'', tagName = ''v2.0.0''\<rparr> \<and>
   fst (ensureStyluaExists plain_semver configured_world Standard) =
     Returned (Some \<lparr>paths = (''/opt/stylua'', ''/opt/stylua''), resolveMode = Configuration,
                     version = Some ''1.9.0''\<rparr>) \<and>
   Some ''1.9.0'' \<noteq> Some (strip_v ''v2.0.0'') \<and>
   new_events configured_world (snd (ensureStyluaExists plain_semver configured_world Standard)) =
     [OutputInfo ''Stylua path explicitly configured: /opt/stylua'', Exec ''/opt/stylua'']"
  by code_simp

end
